(* ===== verification/Prelude.thy ===== *)
theory Prelude
  imports Complex_Main "HOL-Library.Multiset"
begin

text \<open>
  Shared vocabulary of the development: the names of the model's base types, the
  generic table operations that the SQL statements of \<^verbatim>\<open>src/app.py\<close> are built from
  (an \<^verbatim>\<open>UPDATE ... WHERE\<close> over a list of rows), Python's truthiness test on an
  optional form field, and the list lemmas that the component proofs share. The
  collection \<open>table_simps\<close> gathers the rewrite rules for the table combinators so
  that component proofs can say \<open>simp add: table_simps\<close>.
\<close>

named_theorems table_simps "rewrite rules for the SQL table combinators"

type_synonym post_key = int
type_synonym ip_addr = string
type_synonym timestamp = nat

text \<open>
  A table is a list of rows in storage order. \<^verbatim>\<open>UPDATE t SET ... WHERE P\<close> rewrites
  every row that satisfies \<open>P\<close> and keeps the others in place; it matches zero rows
  silently, as PostgreSQL does.
\<close>

definition update_where :: "('a \<Rightarrow> bool) \<Rightarrow> ('a \<Rightarrow> 'a) \<Rightarrow> 'a list \<Rightarrow> 'a list" where
  "update_where P f xs = map (\<lambda>x. if P x then f x else x) xs"

text \<open>
  Python's \<^verbatim>\<open>not v\<close> on the result of \<^verbatim>\<open>request.form.get(k)\<close>: true for a missing
  field (\<^verbatim>\<open>None\<close>) and for the empty string; any other string is truthy (a string
  of blanks included).
\<close>

fun py_falsy :: "string option \<Rightarrow> bool" where
  "py_falsy None = True"
| "py_falsy (Some v) = (v = [])"

subsection \<open>Lemmas on the table combinators\<close>

lemma update_where_Nil [simp, table_simps]: "update_where P f [] = []"
  by (simp add: update_where_def)

lemma update_where_Cons [simp, table_simps]:
  "update_where P f (x # xs) = (if P x then f x else x) # update_where P f xs"
  by (simp add: update_where_def)

lemma length_update_where [simp, table_simps]: "length (update_where P f xs) = length xs"
  by (simp add: update_where_def)

lemma map_update_where_frame [table_simps]:
  "(\<And>x. P x \<Longrightarrow> g (f x) = g x) \<Longrightarrow> map g (update_where P f xs) = map g xs"
  by (induction xs) auto

lemma set_update_where [table_simps]:
  "set (update_where P f xs) = (\<lambda>x. if P x then f x else x) ` set xs"
  by (simp add: update_where_def)

lemma list_all_update_where [table_simps]:
  "list_all Q (update_where P f xs) = list_all (\<lambda>x. Q (if P x then f x else x)) xs"
  by (induction xs) auto

lemma update_where_none [table_simps]:
  "(\<And>x. x \<in> set xs \<Longrightarrow> \<not> P x) \<Longrightarrow> update_where P f xs = xs"
  by (induction xs) auto

lemma find_update_where_key [table_simps]:
  "(\<And>x. k (f x) = k x) \<Longrightarrow> P = (\<lambda>x. k x = i) \<Longrightarrow>
   find (\<lambda>x. k x = i) (update_where P f xs) = map_option f (find (\<lambda>x. k x = i) xs)"
  by (induction xs) auto

lemma find_update_where_other [table_simps]:
  "(\<And>x. k (f x) = k x) \<Longrightarrow> j \<noteq> i \<Longrightarrow>
   find (\<lambda>x. k x = j) (update_where (\<lambda>x. k x = i) f xs) = find (\<lambda>x. k x = j) xs"
  by (induction xs) auto

lemma filter_update_where_key [table_simps]:
  "(\<And>x. k (f x) = k x) \<Longrightarrow>
   filter (\<lambda>x. Q (k x)) (update_where P f xs) = update_where P f (filter (\<lambda>x. Q (k x)) xs)"
  by (induction xs) auto

subsection \<open>Counting rows\<close>

lemma length_filter_conj_le:
  "length (filter (\<lambda>x. P x \<and> Q x) xs) \<le> length (filter P xs)"
  by (induction xs) auto

lemma length_filter_distinct_single:
  "distinct xs \<Longrightarrow> length (filter (\<lambda>y. y = a) xs) = (if a \<in> set xs then 1 else 0)"
  by (induction xs) auto

lemma filter_conj_key [table_simps]:
  "(\<And>x. f x = k \<Longrightarrow> R x) \<Longrightarrow> filter (\<lambda>x. R x \<and> f x = k) xs = filter (\<lambda>x. f x = k) xs"
  by (induction xs) auto

lemma length_filter_remove_distinct:
  assumes "distinct xs" "a \<in> set xs" "P a"
  shows "length (filter (\<lambda>y. y \<noteq> a \<and> P y) xs) = length (filter P xs) - 1"
  using assms
proof (induction xs)
  case Nil
  then show ?case by simp
next
  case (Cons x xs)
  show ?case
  proof (cases "x = a")
    case True
    with Cons.prems have "a \<notin> set xs" by simp
    then have "filter (\<lambda>y. y \<noteq> a \<and> P y) xs = filter P xs"
      by (metis (mono_tags, lifting) filter_cong)
    with True Cons.prems show ?thesis by simp
  next
    case False
    with Cons.prems have "a \<in> set xs" by simp
    then have "0 < length (filter P xs)"
      using Cons.prems(3) by (simp add: filter_empty_conv) blast
    with Cons False show ?thesis by simp
  qed
qed

lemma mset_take_subseteq: "mset (take n xs) \<subseteq># mset xs"
proof -
  have "mset (take n xs) \<subseteq># mset (take n xs) + mset (drop n xs)" by simp
  also have "\<dots> = mset xs" by (simp flip: mset_append)
  finally show ?thesis .
qed

end
