(* ===== verification/Store.thy ===== *)
theory Store
  imports Prelude
begin

text \<open>
  The relational store behind \<^verbatim>\<open>src/app.py\<close>: the tables \<^verbatim>\<open>board.posts\<close>,
  \<^verbatim>\<open>board.comments\<close>, \<^verbatim>\<open>board.likes\<close> and \<^verbatim>\<open>fms.chick_info\<close> as lists of
  rows in storage order, the two serial sequences that hand out post and comment
  ids, and one definition per SQL statement that the handlers execute, named
  after the statement and mapped to the line that issues it. Every connection runs
  in autocommit mode (\<^verbatim>\<open>get_db_connection\<close>), so each statement is atomic: it either
  commits or raises. A mutating statement returns the error it raised, if any,
  and the store after it; only the sequences move on a failed insert, since
  PostgreSQL never rolls a \<^verbatim>\<open>nextval\<close> back.

  The schema is not part of the repository. What the code's behaviour depends on
  is the foreign-key policy of \<^verbatim>\<open>comments.post_id\<close> and \<^verbatim>\<open>likes.post_id\<close>
  (none, \<^verbatim>\<open>NO ACTION\<close>, or \<^verbatim>\<open>ON DELETE CASCADE\<close>) and whether
  \<^verbatim>\<open>(post_id, user_ip)\<close> is a key of \<^verbatim>\<open>likes\<close>; both are parameters
  (\<open>schema\<close>), and the invariant lemmas say under which of them they hold.
\<close>

record post_row =
  p_id :: post_key
  title :: string
  author :: string
  content :: string
  created_at :: timestamp
  updated_at :: "timestamp option"
  view_count :: int
  like_count :: int

record comment_row =
  c_id :: int
  c_post_id :: post_key
  c_author :: string
  c_content :: string
  c_created_at :: timestamp

record like_row =
  l_post_id :: post_key
  l_user_ip :: ip_addr

record chick_row =
  breeds :: string
  egg_weight :: "rat option"
  hatchday :: "timestamp option"

record store =
  posts :: "post_row list"
  comments :: "comment_row list"
  likes :: "like_row list"
  chick_info :: "chick_row list"
  post_seq :: int
  comment_seq :: int

datatype fk_policy = NoForeignKey | FkNoAction | FkCascade

record schema =
  fk :: fk_policy
  likes_unique :: bool

datatype db_error = ForeignKeyViolation | UniqueViolation

type_synonym outcome = "db_error option \<times> store"

text \<open>The columns of \<^verbatim>\<open>SELECT id, title, author, created_at, view_count, like_count\<close>.\<close>

record index_row =
  ir_id :: post_key
  ir_title :: string
  ir_author :: string
  ir_created_at :: timestamp
  ir_view_count :: int
  ir_like_count :: int

definition empty_store :: store where
  "empty_store = \<lparr>posts = [], comments = [], likes = [], chick_info = [],
     post_seq = 0, comment_seq = 0\<rparr>"

definition post_exists :: "post_key \<Rightarrow> store \<Rightarrow> bool" where
  "post_exists i s = list_ex (\<lambda>p. p_id p = i) (posts s)"

definition likes_of :: "post_key \<Rightarrow> store \<Rightarrow> nat" where
  "likes_of i s = length (filter (\<lambda>l. l_post_id l = i) (likes s))"

text \<open>
  The store invariant the handlers are meant to keep: post ids are distinct and
  were handed out by the sequence; every post's \<^verbatim>\<open>like_count\<close> is the number of
  like rows that reference it (the denormalised counter of the spec, section 3);
  every like and comment references an existing post; and no like row occurs
  twice.
\<close>

definition board_inv :: "store \<Rightarrow> bool" where
  "board_inv s \<longleftrightarrow>
     0 \<le> post_seq s
   \<and> distinct (map p_id (posts s))
   \<and> list_all (\<lambda>p. 0 < p_id p \<and> p_id p \<le> post_seq s) (posts s)
   \<and> list_all (\<lambda>p. like_count p = int (likes_of (p_id p) s)) (posts s)
   \<and> list_all (\<lambda>l. post_exists (l_post_id l) s) (likes s)
   \<and> list_all (\<lambda>c. post_exists (c_post_id c) s) (comments s)
   \<and> distinct (likes s)"

subsection \<open>The SQL statements of the handlers\<close>

definition index_row_of :: "post_row \<Rightarrow> index_row" where
  "index_row_of p = \<lparr>ir_id = p_id p, ir_title = title p, ir_author = author p,
     ir_created_at = created_at p, ir_view_count = view_count p, ir_like_count = like_count p\<rparr>"

text \<open>\<^verbatim>\<open>ORDER BY created_at DESC\<close>: the model breaks ties by storage order, one of
  the orders PostgreSQL may return; the properties proved do not depend on it.\<close>

definition select_index :: "store \<Rightarrow> index_row list" where
  "select_index s = map index_row_of (sort_key (\<lambda>p. - int (created_at p)) (posts s))"

text \<open>\<^verbatim>\<open>INSERT INTO board.posts (title, content, author) VALUES (%s, %s, %s)
  RETURNING id\<close> with the parameters \<^verbatim>\<open>(title, author, content)\<close>: the second
  parameter lands in the column \<^verbatim>\<open>content\<close> and the third in \<^verbatim>\<open>author\<close>.\<close>

definition insert_post :: "timestamp \<Rightarrow> string \<Rightarrow> string \<Rightarrow> string \<Rightarrow> store \<Rightarrow> post_key \<times> store" where
  "insert_post now v1 v2 v3 s =
     (let i = post_seq s + 1
      in (i, s\<lparr>posts := posts s @ [\<lparr>p_id = i, title = v1, author = v3, content = v2,
                 created_at = now, updated_at = None, view_count = 0, like_count = 0\<rparr>],
              post_seq := i\<rparr>))"

definition incr_view_count :: "post_key \<Rightarrow> store \<Rightarrow> store" where
  "incr_view_count i s =
     s\<lparr>posts := update_where (\<lambda>p. p_id p = i) (\<lambda>p. p\<lparr>view_count := view_count p + 1\<rparr>) (posts s)\<rparr>"

definition select_post :: "post_key \<Rightarrow> store \<Rightarrow> post_row option" where
  "select_post i s = find (\<lambda>p. p_id p = i) (posts s)"

text \<open>\<^verbatim>\<open>ORDER BY created_at\<close>: like the list query, the model breaks ties by
  storage order, one of the orders PostgreSQL may return; the properties proved do
  not depend on it.\<close>

definition select_comments :: "post_key \<Rightarrow> store \<Rightarrow> comment_row list" where
  "select_comments i s = sort_key c_created_at (filter (\<lambda>c. c_post_id c = i) (comments s))"

definition count_likes :: "post_key \<Rightarrow> ip_addr \<Rightarrow> store \<Rightarrow> nat" where
  "count_likes i ip s = length (filter (\<lambda>l. l_post_id l = i \<and> l_user_ip l = ip) (likes s))"

definition update_post :: "timestamp \<Rightarrow> string \<Rightarrow> string \<Rightarrow> post_key \<Rightarrow> store \<Rightarrow> store" where
  "update_post now t c i s =
     s\<lparr>posts := update_where (\<lambda>p. p_id p = i)
                 (\<lambda>p. p\<lparr>title := t, content := c, updated_at := Some now\<rparr>) (posts s)\<rparr>"

text \<open>\<^verbatim>\<open>DELETE FROM board.posts WHERE P(id)\<close> under the schema's foreign-key policy:
  with \<^verbatim>\<open>NO ACTION\<close> the statement fails when a comment or like still references a
  deleted post; with \<^verbatim>\<open>CASCADE\<close> the referencing rows go too.\<close>

definition delete_posts_where :: "schema \<Rightarrow> (post_key \<Rightarrow> bool) \<Rightarrow> store \<Rightarrow> outcome" where
  "delete_posts_where sc P s =
     (let gone = (\<lambda>k. P k \<and> post_exists k s);
          s' = s\<lparr>posts := filter (\<lambda>p. \<not> P (p_id p)) (posts s)\<rparr>
      in case fk sc of
           NoForeignKey \<Rightarrow> (None, s')
         | FkNoAction \<Rightarrow>
             (if list_ex (\<lambda>l. gone (l_post_id l)) (likes s)
                 \<or> list_ex (\<lambda>c. gone (c_post_id c)) (comments s)
              then (Some ForeignKeyViolation, s) else (None, s'))
         | FkCascade \<Rightarrow>
             (None, s'\<lparr>likes := filter (\<lambda>l. \<not> gone (l_post_id l)) (likes s),
                        comments := filter (\<lambda>c. \<not> gone (c_post_id c)) (comments s)\<rparr>))"

definition delete_post_stmt :: "schema \<Rightarrow> post_key \<Rightarrow> store \<Rightarrow> outcome" where
  "delete_post_stmt sc i s = delete_posts_where sc (\<lambda>k. k = i) s"

definition delete_any_stmt :: "schema \<Rightarrow> post_key list \<Rightarrow> store \<Rightarrow> outcome" where
  "delete_any_stmt sc ids s = delete_posts_where sc (\<lambda>k. k \<in> set ids) s"

definition fk_missing :: "schema \<Rightarrow> post_key \<Rightarrow> store \<Rightarrow> bool" where
  "fk_missing sc i s = (fk sc \<noteq> NoForeignKey \<and> \<not> post_exists i s)"

text \<open>The comment id comes from the table's serial sequence, drawn before the
  foreign key is checked, so a failed insert still consumes it.\<close>

definition insert_comment :: "timestamp \<Rightarrow> schema \<Rightarrow> post_key \<Rightarrow> string \<Rightarrow> string \<Rightarrow> store \<Rightarrow> outcome" where
  "insert_comment now sc i a c s =
     (let k = comment_seq s + 1; s1 = s\<lparr>comment_seq := k\<rparr>
      in if fk_missing sc i s then (Some ForeignKeyViolation, s1)
         else (None, s1\<lparr>comments := comments s @ [\<lparr>c_id = k, c_post_id = i, c_author = a,
                                                  c_content = c, c_created_at = now\<rparr>]\<rparr>))"

definition delete_likes :: "post_key \<Rightarrow> ip_addr \<Rightarrow> store \<Rightarrow> store" where
  "delete_likes i ip s =
     s\<lparr>likes := filter (\<lambda>l. \<not> (l_post_id l = i \<and> l_user_ip l = ip)) (likes s)\<rparr>"

definition insert_like :: "schema \<Rightarrow> post_key \<Rightarrow> ip_addr \<Rightarrow> store \<Rightarrow> outcome" where
  "insert_like sc i ip s =
     (if likes_unique sc \<and> 0 < count_likes i ip s then (Some UniqueViolation, s)
      else if fk_missing sc i s then (Some ForeignKeyViolation, s)
      else (None, s\<lparr>likes := likes s @ [\<lparr>l_post_id = i, l_user_ip = ip\<rparr>]\<rparr>))"

definition add_like_count :: "post_key \<Rightarrow> int \<Rightarrow> store \<Rightarrow> store" where
  "add_like_count i d s =
     s\<lparr>posts := update_where (\<lambda>p. p_id p = i) (\<lambda>p. p\<lparr>like_count := like_count p + d\<rparr>) (posts s)\<rparr>"

text \<open>What the list page promises (spec, section 4.2): every post once, newest
  first; the order among posts created at the same time is left open.\<close>

definition index_spec :: "store \<Rightarrow> index_row list \<Rightarrow> bool" where
  "index_spec s rows \<longleftrightarrow>
     mset rows = mset (map index_row_of (posts s))
   \<and> sorted_wrt (\<lambda>a b. ir_created_at b \<le> ir_created_at a) rows"

subsection \<open>How the statements act on the store invariant\<close>

text \<open>Frame facts first (which statements leave which ids and counts alone), then
  one lemma per statement or per statement pair of a handler: under a schema that
  enforces the foreign keys each of them keeps \<open>board_inv\<close>.\<close>

lemma post_exists_iff: "post_exists i s \<longleftrightarrow> (\<exists>p \<in> set (posts s). p_id p = i)"
  by (simp add: post_exists_def list_ex_iff)

lemma likes_of_posts_upd [simp]: "likes_of i (s\<lparr>posts := ps\<rparr>) = likes_of i s"
  by (simp add: likes_of_def)

lemma post_exists_set: "post_exists i s \<longleftrightarrow> i \<in> set (map p_id (posts s))"
  by (auto simp: post_exists_def list_ex_iff)

lemma post_exists_cong:
  "map p_id (posts s') = map p_id (posts s) \<Longrightarrow> post_exists i s' = post_exists i s"
  by (simp add: post_exists_set)

lemma post_exists_frame:
  "map p_id ps = map p_id (posts s) \<Longrightarrow> post_exists i (s\<lparr>posts := ps\<rparr>) = post_exists i s"
  by (rule post_exists_cong) simp

lemma board_inv_update_frame:
  assumes "\<And>p. p_id (f p) = p_id p" "\<And>p. like_count (f p) = like_count p" "board_inv s"
  shows "board_inv (s\<lparr>posts := update_where (\<lambda>p. p_id p = i) f (posts s)\<rparr>)"
proof -
  have ids: "map p_id (update_where (\<lambda>p. p_id p = i) f (posts s)) = map p_id (posts s)"
    using assms(1) by (simp add: map_update_where_frame)
  then have ex: "\<And>k. post_exists k (s\<lparr>posts := update_where (\<lambda>p. p_id p = i) f (posts s)\<rparr>) = post_exists k s"
    by (rule post_exists_frame)
  from assms show ?thesis
    unfolding board_inv_def by (auto simp: ids ex set_update_where list_all_iff)
qed

lemma board_inv_incr_view_count: "board_inv s \<Longrightarrow> board_inv (incr_view_count i s)"
  unfolding incr_view_count_def by (rule board_inv_update_frame) simp_all

lemma board_inv_update_post: "board_inv s \<Longrightarrow> board_inv (update_post now t c i s)"
  unfolding update_post_def by (rule board_inv_update_frame) simp_all


lemma board_inv_insert_post:
  assumes "board_inv s"
  shows "board_inv (snd (insert_post now v1 v2 v3 s))"
proof -
  let ?i = "post_seq s + 1"
  from assms have fresh: "?i \<notin> set (map p_id (posts s))"
    by (auto simp: board_inv_def list_all_iff)
  have nolike: "likes_of ?i s = 0"
  proof -
    have "\<forall>l \<in> set (likes s). l_post_id l \<noteq> ?i"
      using assms by (fastforce simp: board_inv_def list_all_iff post_exists_iff)
    then show ?thesis by (simp add: likes_of_def filter_empty_conv)
  qed
  show ?thesis using assms fresh nolike
    by (auto simp: board_inv_def insert_post_def Let_def list_all_iff post_exists_iff likes_of_def)
qed

lemma board_inv_delete_posts_where:
  assumes "fk sc \<noteq> NoForeignKey" "board_inv s"
  shows "board_inv (snd (delete_posts_where sc P s))"
proof (cases "fk sc")
  case NoForeignKey
  with assms show ?thesis by simp
next
  case FkNoAction
  with assms show ?thesis
    by (simp add: board_inv_def delete_posts_where_def list_all_iff list_ex_iff post_exists_iff
        likes_of_def distinct_map_filter) fastforce
next
  case FkCascade
  with assms show ?thesis
    by (simp add: board_inv_def delete_posts_where_def list_all_iff post_exists_iff
        likes_of_def distinct_map_filter filter_conj_key) fastforce
qed

lemma like_row_eq_iff: "(y = \<lparr>l_post_id = i, l_user_ip = ip\<rparr>) \<longleftrightarrow> l_post_id y = i \<and> l_user_ip y = ip"
  by (cases y) auto

lemma count_likes_pos_iff: "0 < count_likes i ip s \<longleftrightarrow> \<lparr>l_post_id = i, l_user_ip = ip\<rparr> \<in> set (likes s)"
proof -
  have "0 < count_likes i ip s \<longleftrightarrow> (\<exists>y \<in> set (likes s). l_post_id y = i \<and> l_user_ip y = ip)"
    by (simp add: count_likes_def filter_empty_conv)
  also have "\<dots> \<longleftrightarrow> \<lparr>l_post_id = i, l_user_ip = ip\<rparr> \<in> set (likes s)"
    by (metis like_row_eq_iff)
  finally show ?thesis .
qed

lemma likes_of_delete_likes:
  assumes "distinct (likes s)" "0 < count_likes i ip s"
  shows "likes_of k (delete_likes i ip s) = (if k = i then likes_of k s - 1 else likes_of k s)"
proof -
  let ?r = "\<lparr>l_post_id = i, l_user_ip = ip\<rparr>"
  have del: "delete_likes i ip s = s\<lparr>likes := filter (\<lambda>y. y \<noteq> ?r) (likes s)\<rparr>"
    by (simp add: delete_likes_def like_row_eq_iff)
  have mem: "?r \<in> set (likes s)" using assms(2) by (simp add: count_likes_pos_iff)
  show ?thesis
  proof (cases "k = i")
    case True
    with assms(1) mem show ?thesis
      by (simp add: del likes_of_def length_filter_remove_distinct)
  next
    case False
    then show ?thesis
      by (simp add: delete_likes_def likes_of_def filter_filter) (metis (mono_tags, lifting))
  qed
qed

lemma likes_of_append_like:
  "likes_of k (s\<lparr>likes := likes s @ [\<lparr>l_post_id = i, l_user_ip = ip\<rparr>]\<rparr>) =
     (if k = i then likes_of k s + 1 else likes_of k s)"
  by (simp add: likes_of_def)

lemma board_inv_likes_update:
  assumes inv: "board_inv s"
    and dist: "distinct ls"
    and refs: "\<forall>l \<in> set ls. post_exists (l_post_id l) s"
    and other: "\<And>k. k \<noteq> i \<Longrightarrow> length (filter (\<lambda>l. l_post_id l = k) ls) = likes_of k s"
    and self: "int (length (filter (\<lambda>l. l_post_id l = i) ls)) = int (likes_of i s) + d"
  shows "board_inv (add_like_count i d (s\<lparr>likes := ls\<rparr>))"
proof -
  let ?s' = "add_like_count i d (s\<lparr>likes := ls\<rparr>)"
  let ?f = "\<lambda>p. p\<lparr>like_count := like_count p + d\<rparr>"
  have ps: "posts ?s' = update_where (\<lambda>p. p_id p = i) ?f (posts s)"
    and lks: "likes ?s' = ls" and cms: "comments ?s' = comments s"
    and seq: "post_seq ?s' = post_seq s"
    by (simp_all add: add_like_count_def)
  have ids: "map p_id (posts ?s') = map p_id (posts s)"
    by (simp add: ps map_update_where_frame)
  then have ex: "\<And>k. post_exists k ?s' = post_exists k s"
    by (rule post_exists_cong)
  have lk: "\<And>k. likes_of k ?s' = length (filter (\<lambda>l. l_post_id l = k) ls)"
    by (simp add: likes_of_def lks)
  have range: "list_all (\<lambda>p. 0 < p_id p \<and> p_id p \<le> post_seq s) (posts ?s')"
    using inv by (auto simp: ps set_update_where board_inv_def list_all_iff)
  have cnt: "list_all (\<lambda>p. like_count p = int (likes_of (p_id p) ?s')) (posts ?s')"
  proof -
    have "\<forall>p \<in> set (posts s). like_count p = int (likes_of (p_id p) s)"
      using inv by (simp add: board_inv_def list_all_iff)
    then show ?thesis
      unfolding lk ps list_all_iff set_update_where
      using other self by auto
  qed
  show ?thesis
    unfolding board_inv_def
    using inv dist refs range cnt
    by (simp add: board_inv_def ids ex lks cms seq list_all_iff)
qed

lemma board_inv_unlike:
  assumes "board_inv s" "0 < count_likes i ip s"
  shows "board_inv (add_like_count i (-1) (delete_likes i ip s))"
proof -
  have dist: "distinct (likes s)" using assms(1) by (simp add: board_inv_def)
  have pos: "0 < likes_of i s"
    using assms(2) by (auto simp: count_likes_def likes_of_def filter_empty_conv)
  have lo: "\<And>k. likes_of k (delete_likes i ip s) = (if k = i then likes_of k s - 1 else likes_of k s)"
    using dist assms(2) by (rule likes_of_delete_likes)
  let ?ls = "filter (\<lambda>l. \<not> (l_post_id l = i \<and> l_user_ip l = ip)) (likes s)"
  have eq: "delete_likes i ip s = s\<lparr>likes := ?ls\<rparr>" by (simp add: delete_likes_def)
  have "board_inv (add_like_count i (-1) (s\<lparr>likes := ?ls\<rparr>))"
  proof (rule board_inv_likes_update [OF assms(1)])
    show "distinct ?ls" using dist by simp
    show "\<forall>l \<in> set ?ls. post_exists (l_post_id l) s"
      using assms(1) by (simp add: board_inv_def list_all_iff)
    show "\<And>k. k \<noteq> i \<Longrightarrow> length (filter (\<lambda>l. l_post_id l = k) ?ls) = likes_of k s"
      using lo by (simp add: likes_of_def delete_likes_def)
    have "int (likes_of i (delete_likes i ip s)) = int (likes_of i s) - 1"
      using lo [of i] pos by (simp add: of_nat_diff)
    then show "int (length (filter (\<lambda>l. l_post_id l = i) ?ls)) = int (likes_of i s) + - 1"
      by (simp add: likes_of_def delete_likes_def)
  qed
  then show ?thesis by (simp add: eq)
qed

lemma insert_like_ok:
  "insert_like sc i ip s = (None, s1) \<Longrightarrow>
     s1 = s\<lparr>likes := likes s @ [\<lparr>l_post_id = i, l_user_ip = ip\<rparr>]\<rparr> \<and> \<not> fk_missing sc i s"
  by (auto simp: insert_like_def split: if_splits)

lemma board_inv_like:
  assumes inv: "board_inv s" and fk: "fk sc \<noteq> NoForeignKey"
    and none: "count_likes i ip s = 0" and ok: "insert_like sc i ip s = (None, s1)"
  shows "board_inv (add_like_count i 1 s1)"
proof -
  let ?r = "\<lparr>l_post_id = i, l_user_ip = ip\<rparr>"
  from ok have s1: "s1 = s\<lparr>likes := likes s @ [?r]\<rparr>" and ex: "post_exists i s"
    using fk by (auto dest: insert_like_ok simp: fk_missing_def)
  have notin: "?r \<notin> set (likes s)"
    using none count_likes_pos_iff [of i ip s] by simp
  have "board_inv (add_like_count i 1 (s\<lparr>likes := likes s @ [?r]\<rparr>))"
  proof (rule board_inv_likes_update [OF inv])
    show "distinct (likes s @ [?r])" using inv notin by (simp add: board_inv_def)
    show "\<forall>l \<in> set (likes s @ [?r]). post_exists (l_post_id l) s"
      using inv ex by (simp add: board_inv_def list_all_iff)
    show "\<And>k. k \<noteq> i \<Longrightarrow> length (filter (\<lambda>l. l_post_id l = k) (likes s @ [?r])) = likes_of k s"
      by (simp add: likes_of_def)
    show "int (length (filter (\<lambda>l. l_post_id l = i) (likes s @ [?r]))) = int (likes_of i s) + 1"
      by (simp add: likes_of_def)
  qed
  with s1 show ?thesis by simp
qed

lemma board_inv_comments_frame:
  assumes "board_inv s" "posts s' = posts s" "likes s' = likes s" "post_seq s' = post_seq s"
    and "list_all (\<lambda>c. post_exists (c_post_id c) s) (comments s')"
  shows "board_inv s'"
proof -
  have ex: "\<And>k. post_exists k s' = post_exists k s"
    using assms(2) by (simp add: post_exists_def)
  have lk: "\<And>k. likes_of k s' = likes_of k s"
    using assms(3) by (simp add: likes_of_def)
  show ?thesis
    using assms(1,5) by (simp add: board_inv_def assms(2-4) ex lk)
qed

lemma board_inv_insert_comment:
  assumes inv: "board_inv s" and fk: "fk sc \<noteq> NoForeignKey"
  shows "board_inv (snd (insert_comment now sc i a c s))"
proof (rule board_inv_comments_frame [OF inv])
  let ?s' = "snd (insert_comment now sc i a c s)"
  show "posts ?s' = posts s" "likes ?s' = likes s" "post_seq ?s' = post_seq s"
    by (simp_all add: insert_comment_def Let_def)
  show "list_all (\<lambda>c. post_exists (c_post_id c) s) (comments ?s')"
    using inv fk by (simp add: insert_comment_def Let_def board_inv_def fk_missing_def)
qed

subsection \<open>Functional facts about single statements\<close>

lemma select_post_incr_view_count:
  "select_post i (incr_view_count i s) =
     map_option (\<lambda>p. p\<lparr>view_count := view_count p + 1\<rparr>) (select_post i s)"
  by (simp add: select_post_def incr_view_count_def find_update_where_key)

lemma incr_view_count_absent: "select_post i s = None \<Longrightarrow> incr_view_count i s = s"
  by (simp add: select_post_def incr_view_count_def find_None_iff update_where_none)

lemma insert_like_fresh:
  "count_likes i ip s = 0 \<Longrightarrow> \<not> fk_missing sc i s \<Longrightarrow>
   insert_like sc i ip s = (None, s\<lparr>likes := likes s @ [\<lparr>l_post_id = i, l_user_ip = ip\<rparr>]\<rparr>)"
  by (simp add: insert_like_def)

lemma add_like_count_cancel: "add_like_count i (-1) (add_like_count i 1 s) = s"
proof -
  have eq: "update_where (\<lambda>p. p_id p = i) (\<lambda>p. p\<lparr>like_count := like_count p - 1\<rparr>)
          (update_where (\<lambda>p. p_id p = i) (\<lambda>p. p\<lparr>like_count := like_count p + 1\<rparr>) ps) = ps" for ps
    by (induction ps) auto
  then show ?thesis by (simp add: add_like_count_def eq)
qed

lemma delete_likes_add_like_count:
  "delete_likes i ip (add_like_count j d s) = add_like_count j d (delete_likes i ip s)"
  by (simp add: delete_likes_def add_like_count_def)

lemma count_likes_zero_filter:
  "count_likes i ip s = 0 \<Longrightarrow>
   filter (\<lambda>l. \<not> (l_post_id l = i \<and> l_user_ip l = ip)) (likes s) = likes s"
  by (simp add: count_likes_def filter_empty_conv filter_id_conv)

subsection \<open>The two ordered queries\<close>

text \<open>
  C20. The list query refines its specification: it returns the listed columns of
  every post exactly once, ordered by \<^verbatim>\<open>created_at\<close> from newest to oldest.
\<close>

theorem select_index_refines_spec: "index_spec s (select_index s)"
proof -
  let ?k = "\<lambda>p. - int (created_at p)"
  have "sorted (map ?k (sort_key ?k (posts s)))" by simp
  then have "sorted_wrt (\<lambda>a b. created_at b \<le> created_at a) (sort_key ?k (posts s))"
    by (simp add: sorted_map sorted_wrt_iff_nth_less)
  then have "sorted_wrt (\<lambda>a b. ir_created_at b \<le> ir_created_at a) (select_index s)"
    by (simp add: select_index_def sorted_wrt_map index_row_of_def)
  moreover have "mset (select_index s) = mset (map index_row_of (posts s))"
    by (simp add: select_index_def)
  ultimately show ?thesis by (simp add: index_spec_def)
qed


end
