(* ===== verification/Session.thy ===== *)
theory Session
  imports Store
begin

text \<open>
  The per-client session of Flask as the handlers of \<^verbatim>\<open>src/app.py\<close> use it: a queue
  of one-shot flash messages. \<^verbatim>\<open>flash(m)\<close> appends to it; a rendered page shows
  the pending messages and clears them (\<^verbatim>\<open>get_flashed_messages\<close> in the templates,
  which are not under \<^verbatim>\<open>src/\<close>: modelled from the spec). The Korean message texts
  are named by constructors of \<open>flash_msg\<close>; the two messages that carry data (the
  batch-delete count and the error text) carry it as constructor arguments. The
  application state of one client is its store and its session.
\<close>

text \<open>The exceptions the handlers can raise: a database error of a statement, the
  \<^verbatim>\<open>ValueError\<close> of \<^verbatim>\<open>int()\<close>, and the \<^verbatim>\<open>psycopg2.OperationalError\<close> of a
  connection the server refuses.\<close>

datatype py_exn = DbException db_error | ValueError string | OperationalError

datatype flash_msg =
    FillAllFields
  | PostCreated
  | PostNotFound
  | TitleContentRequired
  | PostUpdated
  | PostDeleted
  | AuthorContentRequired
  | CommentAdded
  | LikeRemoved
  | LikeAdded
  | SelectToDelete
  | BatchDeleted nat
  | DeleteFailed py_exn

record app_state =
  db :: store
  flashes :: "flash_msg list"

definition flash :: "flash_msg \<Rightarrow> app_state \<Rightarrow> app_state" where
  "flash m st = st\<lparr>flashes := flashes st @ [m]\<rparr>"

definition get_flashed_messages :: "app_state \<Rightarrow> flash_msg list \<times> app_state" where
  "get_flashed_messages st = (flashes st, st\<lparr>flashes := []\<rparr>)"

lemma db_flash [simp]: "db (flash m st) = db st"
  by (simp add: flash_def)

lemma flashes_flash [simp]: "flashes (flash m st) = flashes st @ [m]"
  by (simp add: flash_def)

lemma get_flashed_messages_db [simp]: "db (snd (get_flashed_messages st)) = db st"
  by (simp add: get_flashed_messages_def)

end
