(* ===== verification/Fms.thy ===== *)
theory Fms
  imports Store
begin

text \<open>
  The read-only FMS dashboard (\<^verbatim>\<open>fms_dashboard\<close>, \<^verbatim>\<open>src/app.py\<close> lines 227-250):
  three queries over \<^verbatim>\<open>fms.chick_info\<close>. \<^verbatim>\<open>count(*)\<close> counts every row,
  \<^verbatim>\<open>avg(egg_weight)\<close> averages the non-NULL weights and is NULL when there are none,
  \<^verbatim>\<open>GROUP BY breeds\<close> gives one count per distinct breed (in first-occurrence order
  here; the order is unspecified in SQL), and \<^verbatim>\<open>ORDER BY hatchday DESC LIMIT 5\<close>
  follows PostgreSQL's default of sorting NULLs first in a descending order.
\<close>

record fms_data =
  total :: nat
  avg_weight :: "rat option"
  breed_stats :: "(string \<times> nat) list"
  recent_chicks :: "chick_row list"

definition fms_summary :: "chick_row list \<Rightarrow> nat \<times> rat option" where
  "fms_summary rows =
     (let ws = List.map_filter egg_weight rows
      in (length rows, if ws = [] then None else Some (sum_list ws / of_nat (length ws))))"

definition fms_breed_stats :: "chick_row list \<Rightarrow> (string \<times> nat) list" where
  "fms_breed_stats rows =
     map (\<lambda>b. (b, length (filter (\<lambda>r. breeds r = b) rows))) (remdups (map breeds rows))"

definition hatchday_desc_key :: "chick_row \<Rightarrow> int" where
  "hatchday_desc_key r = (case hatchday r of None \<Rightarrow> 0 | Some d \<Rightarrow> - int d)"

definition fms_recent :: "chick_row list \<Rightarrow> chick_row list" where
  "fms_recent rows =
     take 5 (filter (\<lambda>r. hatchday r = None) rows
             @ sort_key hatchday_desc_key (filter (\<lambda>r. hatchday r \<noteq> None) rows))"

definition fms_query :: "store \<Rightarrow> fms_data" where
  "fms_query s =
     (let rows = chick_info s; sm = fms_summary rows
      in \<lparr>total = fst sm, avg_weight = snd sm, breed_stats = fms_breed_stats rows,
          recent_chicks = fms_recent rows\<rparr>)"

text \<open>The order \<^verbatim>\<open>ORDER BY hatchday DESC\<close> puts rows in: rows with no hatch
  day first (PostgreSQL's \<^verbatim>\<open>NULLS FIRST\<close> for a descending key), then later
  hatch days before earlier ones.\<close>

definition hatch_before :: "chick_row \<Rightarrow> chick_row \<Rightarrow> bool" where
  "hatch_before a b =
     (case (hatchday a, hatchday b) of
        (None, _) \<Rightarrow> True
      | (Some _, None) \<Rightarrow> False
      | (Some x, Some y) \<Rightarrow> y \<le> x)"

lemma breed_count_eq: "length (filter (\<lambda>r. breeds r = b) rows) = count_list (map breeds rows) b"
  by (simp add: count_list_eq_length_filter filter_map comp_def eq_commute)

lemma hatch_before_dated:
  "hatchday a \<noteq> None \<Longrightarrow> hatchday b \<noteq> None \<Longrightarrow>
   hatch_before a b \<longleftrightarrow> hatchday_desc_key a \<le> hatchday_desc_key b"
  by (auto simp: hatch_before_def hatchday_desc_key_def)

text \<open>
  C22. A chick with no recorded hatch day is shown first among the "recent
  hatches": as soon as one such row exists, the first row of the dashboard's recent
  list has no hatch day, ahead of every dated hatch.
\<close>

theorem fms_recent_null_first:
  assumes "r \<in> set (chick_info s)" "hatchday r = None"
  shows "recent_chicks (fms_query s) \<noteq> [] \<and> hatchday (hd (recent_chicks (fms_query s))) = None"
proof -
  have "filter (\<lambda>r. hatchday r = None) (chick_info s) \<noteq> []"
    using assms by (auto simp: filter_empty_conv)
  then obtain x xs where x: "filter (\<lambda>r. hatchday r = None) (chick_info s) = x # xs"
    by (cases "filter (\<lambda>r. hatchday r = None) (chick_info s)") auto
  then have "hatchday x = None"
    by (metis (mono_tags, lifting) filter_eq_ConsD)
  with x show ?thesis by (simp add: fms_query_def fms_recent_def Let_def)
qed

theorem fms_recent_null_first_witness:
  "\<lparr>breeds = ''B'', egg_weight = None, hatchday = None\<rparr>
      \<in> set [\<lparr>breeds = ''A'', egg_weight = Some 60, hatchday = Some 20\<rparr>,
              \<lparr>breeds = ''B'', egg_weight = None, hatchday = None\<rparr>]
   \<and> hatchday (hd (recent_chicks (fms_query (empty_store\<lparr>chick_info :=
        [\<lparr>breeds = ''A'', egg_weight = Some 60, hatchday = Some 20\<rparr>,
         \<lparr>breeds = ''B'', egg_weight = None, hatchday = None\<rparr>]\<rparr>)))) = None"
  using fms_recent_null_first [of "\<lparr>breeds = ''B'', egg_weight = None, hatchday = None\<rparr>"
      "empty_store\<lparr>chick_info := [\<lparr>breeds = ''A'', egg_weight = Some 60, hatchday = Some 20\<rparr>,
         \<lparr>breeds = ''B'', egg_weight = None, hatchday = None\<rparr>]\<rparr>"]
  by simp

text \<open>
  C23. The recent list holds at most five rows, exactly five when there are that
  many, all of them rows of the table, in the order of \<open>hatch_before\<close>.
\<close>

theorem fms_recent_order:
  "sorted_wrt hatch_before (recent_chicks (fms_query s))
   \<and> length (recent_chicks (fms_query s)) = min 5 (length (chick_info s))
   \<and> mset (recent_chicks (fms_query s)) \<subseteq># mset (chick_info s)"
proof -
  let ?rows = "chick_info s"
  let ?nulls = "filter (\<lambda>r. hatchday r = None) ?rows"
  let ?dated = "sort_key hatchday_desc_key (filter (\<lambda>r. hatchday r \<noteq> None) ?rows)"
  have "sorted (map hatchday_desc_key ?dated)" by simp
  then have "sorted_wrt (\<lambda>a b. hatchday_desc_key a \<le> hatchday_desc_key b) ?dated"
    by (simp add: sorted_map)
  then have sd: "sorted_wrt hatch_before ?dated"
    by (rule sorted_wrt_mono_rel [rotated]) (simp add: hatch_before_dated)
  have sn: "sorted_wrt hatch_before ?nulls"
    by (rule sorted_wrt_mono_rel [of _ "\<lambda>_ _. True"]) (simp_all add: hatch_before_def)
  have cross: "\<forall>x \<in> set ?nulls. \<forall>y \<in> set ?dated. hatch_before x y"
    by (simp add: hatch_before_def)
  have rc: "recent_chicks (fms_query s) = take 5 (?nulls @ ?dated)"
    by (simp add: fms_query_def fms_recent_def Let_def)
  have "sorted_wrt hatch_before (?nulls @ ?dated)"
    using sn sd cross by (simp add: sorted_wrt_append)
  then have o: "sorted_wrt hatch_before (recent_chicks (fms_query s))"
    unfolding rc by (rule sorted_wrt_take)
  have "length (?nulls @ ?dated) = length ?rows"
    using sum_length_filter_compl [of "\<lambda>r. hatchday r = None" ?rows] by simp
  then have l: "length (recent_chicks (fms_query s)) = min 5 (length ?rows)"
    unfolding rc by simp
  have "mset (?nulls @ ?dated) = mset ?rows"
    using multiset_partition [of "mset ?rows" "\<lambda>r. hatchday r = None"] by simp
  then have "mset (recent_chicks (fms_query s)) \<subseteq># mset ?rows"
    unfolding rc by (metis mset_take_subseteq)
  with o l show ?thesis by simp
qed


text \<open>
  C24. The per-breed counts of the dashboard add up to its total, with one entry
  per distinct breed of the table.
\<close>

theorem fms_breed_stats_total:
  "sum_list (map snd (breed_stats (fms_query s))) = total (fms_query s)
   \<and> distinct (map fst (breed_stats (fms_query s)))
   \<and> set (map fst (breed_stats (fms_query s))) = breeds ` set (chick_info s)"
proof -
  let ?bs = "map breeds (chick_info s)"
  have "sum_list (map (\<lambda>b. count_list ?bs b) (remdups ?bs)) = sum (count_list ?bs) (set ?bs)"
    by (rule sum.set_conv_list [symmetric])
  also have "\<dots> = length ?bs" by (rule sum_count_set) simp_all
  finally have "sum_list (map (\<lambda>b. count_list ?bs b) (remdups ?bs)) = length (chick_info s)" by simp
  then show ?thesis
    by (simp add: fms_query_def fms_breed_stats_def fms_summary_def Let_def comp_def breed_count_eq)
qed


end
