(* ===== verification/PyInt.thy ===== *)
theory PyInt
  imports Prelude
begin

text \<open>
  Python's \<^verbatim>\<open>int(s)\<close> on a string, as \<^verbatim>\<open>delete_batch\<close> applies it to every
  submitted id (\<^verbatim>\<open>src/app.py\<close> line 208), for strings of ASCII characters: surrounding
  whitespace (space, tab, newline, vertical tab, form feed, carriage return) is
  ignored, one sign is allowed, and the digits may be grouped by single
  underscores (\<^verbatim>\<open>'1_000'\<close>); anything else raises \<^verbatim>\<open>ValueError\<close>, here \<open>None\<close>.
  The list comprehension raises at the first entry that does not parse, so
  \<open>parse_ids\<close> returns that entry. The roundtrip lemma says that the decimal form of
  every integer, which is what the index page renders as a checkbox value, parses
  back to the same integer.
\<close>

definition py_space :: "char \<Rightarrow> bool" where
  "py_space ch = (of_char ch = (32::nat) \<or> (9 \<le> (of_char ch :: nat) \<and> (of_char ch :: nat) \<le> 13))"

definition py_digit :: "char \<Rightarrow> nat option" where
  "py_digit ch = (let n = (of_char ch :: nat) in if 48 \<le> n \<and> n \<le> 57 then Some (n - 48) else None)"

fun parse_digits :: "string \<Rightarrow> nat list option" where
  "parse_digits [] = None"
| "parse_digits (ch # rest) =
     (case py_digit ch of
        None \<Rightarrow> None
      | Some d \<Rightarrow>
          (case rest of
             [] \<Rightarrow> Some [d]
           | u # rest' \<Rightarrow>
               if u = CHR ''_'' then map_option (Cons d) (parse_digits rest')
               else map_option (Cons d) (parse_digits rest)))"

definition digits_value :: "nat list \<Rightarrow> nat" where
  "digits_value ds = foldl (\<lambda>acc d. 10 * acc + d) 0 ds"

definition py_strip :: "string \<Rightarrow> string" where
  "py_strip s = rev (dropWhile py_space (rev (dropWhile py_space s)))"

definition py_int :: "string \<Rightarrow> int option" where
  "py_int s =
     (case py_strip s of
        [] \<Rightarrow> None
      | ch # rest \<Rightarrow>
          if ch = CHR ''-'' then map_option (\<lambda>ds. - int (digits_value ds)) (parse_digits rest)
          else if ch = CHR ''+'' then map_option (\<lambda>ds. int (digits_value ds)) (parse_digits rest)
          else map_option (\<lambda>ds. int (digits_value ds)) (parse_digits (ch # rest)))"

fun parse_ids :: "string list \<Rightarrow> string + int list" where
  "parse_ids [] = Inr []"
| "parse_ids (p # ps) =
     (case py_int p of
        None \<Rightarrow> Inl p
      | Some n \<Rightarrow> (case parse_ids ps of Inl bad \<Rightarrow> Inl bad | Inr ns \<Rightarrow> Inr (n # ns)))"

text \<open>The decimal rendering of an integer (\<^verbatim>\<open>str(n)\<close>, as Jinja prints
  \<^verbatim>\<open>{{ post.id }}\<close>), digit by digit.\<close>

fun nat_digits :: "nat \<Rightarrow> nat list" where
  "nat_digits n = (if n < 10 then [n] else nat_digits (n div 10) @ [n mod 10])"

definition digit_char :: "nat \<Rightarrow> char" where
  "digit_char d = char_of (48 + d)"

definition str_int :: "int \<Rightarrow> string" where
  "str_int i = (if i < 0 then CHR ''-'' # map digit_char (nat_digits (nat (- i)))
                else map digit_char (nat_digits (nat i)))"

lemma parse_ids_Inr: "parse_ids ps = Inr ns \<Longrightarrow> list_all2 (\<lambda>p n. py_int p = Some n) ps ns"
  by (induction ps arbitrary: ns) (auto split: option.splits sum.splits)

lemma parse_ids_Inl: "parse_ids ps = Inl bad \<Longrightarrow> bad \<in> set ps \<and> py_int bad = None"
  by (induction ps) (auto split: option.splits sum.splits)

subsection \<open>Decimal strings parse back\<close>

declare nat_digits.simps [simp del]

lemma nat_digits_small: "d \<in> set (nat_digits n) \<Longrightarrow> d < 10"
proof (induction n rule: nat_digits.induct)
  case (1 n)
  then show ?case
    by (cases "n < 10") (auto simp: nat_digits.simps [of n])
qed

lemma nat_digits_nonempty: "nat_digits n \<noteq> []"
  by (simp add: nat_digits.simps [of n])

lemma digits_value_snoc: "digits_value (ds @ [d]) = 10 * digits_value ds + d"
  by (simp add: digits_value_def)

lemma digits_value_nat_digits: "digits_value (nat_digits n) = n"
proof (induction n rule: nat_digits.induct)
  case (1 n)
  show ?case
  proof (cases "n < 10")
    case True
    then show ?thesis by (simp add: nat_digits.simps [of n] digits_value_def)
  next
    case False
    with "1.IH" show ?thesis by (simp add: nat_digits.simps [of n] digits_value_snoc)
  qed
qed

lemma py_digit_digit_char: "d < 10 \<Longrightarrow> py_digit (digit_char d) = Some d"
  by (simp add: py_digit_def digit_char_def)

lemma of_char_digit_char: "d < 10 \<Longrightarrow> (of_char (digit_char d) :: nat) = 48 + d"
  by (simp add: digit_char_def)

lemma digit_char_not_special:
  assumes "d < 10"
  shows "digit_char d \<noteq> CHR ''_'' \<and> digit_char d \<noteq> CHR ''-''
    \<and> digit_char d \<noteq> CHR ''+'' \<and> \<not> py_space (digit_char d)"
proof -
  have v: "(of_char (digit_char d) :: nat) = 48 + d" using assms by (rule of_char_digit_char)
  have "(of_char (CHR ''_'') :: nat) = 95" "(of_char (CHR ''-'') :: nat) = 45"
    "(of_char (CHR ''+'') :: nat) = 43" by simp_all
  with v assms show ?thesis
    by (auto simp: py_space_def dest: arg_cong [where f = "of_char :: char \<Rightarrow> nat"])
qed


lemma parse_digits_map:
  "ds \<noteq> [] \<Longrightarrow> \<forall>d \<in> set ds. d < 10 \<Longrightarrow> parse_digits (map digit_char ds) = Some ds"
proof (induction ds)
  case Nil
  then show ?case by simp
next
  case (Cons d rest)
  then have d: "d < 10" by simp
  show ?case
  proof (cases rest)
    case Nil
    with d show ?thesis by (simp add: py_digit_digit_char)
  next
    case (Cons d' rest')
    with Cons.prems have "digit_char d' \<noteq> CHR ''_''" by (simp add: digit_char_not_special)
    moreover from Cons.prems Cons.IH \<open>rest = d' # rest'\<close>
    have "parse_digits (map digit_char rest) = Some rest" by simp
    ultimately show ?thesis
      using d \<open>rest = d' # rest'\<close> by (simp add: py_digit_digit_char)
  qed
qed

lemma dropWhile_none: "\<forall>c \<in> set xs. \<not> P c \<Longrightarrow> dropWhile P xs = xs"
  by (cases xs) simp_all

lemma py_strip_id: "\<forall>c \<in> set s. \<not> py_space c \<Longrightarrow> py_strip s = s"
  by (simp add: py_strip_def dropWhile_none)

theorem py_int_str_int: "py_int (str_int n) = Some n"
proof -
  let ?m = "if n < 0 then nat (- n) else nat n"
  let ?ds = "nat_digits ?m"
  have small: "\<forall>d \<in> set ?ds. d < 10" by (simp add: nat_digits_small)
  have ne: "?ds \<noteq> []" by (rule nat_digits_nonempty)
  have parse: "parse_digits (map digit_char ?ds) = Some ?ds"
    using ne small by (rule parse_digits_map)
  have val: "digits_value ?ds = ?m" by (rule digits_value_nat_digits)
  have nospace: "\<forall>c \<in> set (map digit_char ?ds). \<not> py_space c"
    using small by (auto simp: digit_char_not_special)
  show ?thesis
  proof (cases "n < 0")
    case True
    have "py_strip (str_int n) = str_int n"
      using nospace True by (intro py_strip_id) (auto simp: str_int_def py_space_def)
    with True parse val show ?thesis by (simp add: py_int_def str_int_def)
  next
    case False
    obtain d rest where dr: "map digit_char ?ds = digit_char d # map digit_char rest" and "d < 10"
      using ne small by (cases ?ds) auto
    then have "digit_char d \<noteq> CHR ''-''" "digit_char d \<noteq> CHR ''+''"
      by (simp_all add: digit_char_not_special)
    moreover have "py_strip (str_int n) = str_int n"
      using nospace False by (intro py_strip_id) (simp add: str_int_def)
    ultimately show ?thesis
      using False parse val dr by (simp add: py_int_def str_int_def)
  qed
qed

text \<open>
  C19. The index page renders every post id with \<^verbatim>\<open>str\<close>; \<^verbatim>\<open>delete_batch\<close>
  converts what comes back with \<^verbatim>\<open>int\<close>. Every list of rendered ids converts
  back to exactly that list, so ticking checkboxes of the index never raises the
  \<^verbatim>\<open>ValueError\<close> branch.
\<close>

theorem parse_ids_str_int: "parse_ids (map str_int ns) = Inr ns"
  by (induction ns) (simp_all add: py_int_str_int)

end
