(* ===== verification/Handlers.thy ===== *)
theory Handlers
  imports Session Fms PyInt
begin

text \<open>
  The route handlers of \<^verbatim>\<open>src/app.py\<close>, one definition each, in the order of the
  file. A handler takes the schema, the request environment (the client address
  \<^verbatim>\<open>request.remote_addr\<close> and the clock that \<^verbatim>\<open>now()\<close> and \<^verbatim>\<open>datetime.now()\<close>
  read), its path parameter and form, and the client's application state; it
  returns the HTTP response and the new state. Form fields are read with
  \<^verbatim>\<open>request.form.get\<close> (the first value of the field, or none) and
  \<^verbatim>\<open>getlist\<close>. Each SQL statement is the definition of theory \<open>Store\<close> for it;
  an exception that no handler catches becomes \<open>InternalServerError\<close> with the
  store as the statements before it left it (autocommit). \<open>handle\<close> is the route
  table: it dispatches a request to its handler, as the \<^verbatim>\<open>@app.route\<close> decorators do.
\<close>

record env =
  remote_addr :: ip_addr
  clock :: timestamp

type_synonym form = "(string \<times> string) list"

definition form_get :: "form \<Rightarrow> string \<Rightarrow> string option" where
  "form_get f k = map_of f k"

definition form_getlist :: "form \<Rightarrow> string \<Rightarrow> string list" where
  "form_getlist f k = map snd (filter (\<lambda>kv. fst kv = k) f)"

datatype endpoint = Index | CreateForm | ViewPost post_key | EditForm post_key

datatype page =
    IndexPage "index_row list"
  | CreatePage
  | ViewPage post_row "comment_row list" bool
  | EditPage post_row
  | FmsPage fms_data

datatype response =
    Redirect endpoint
  | Render page "flash_msg list"
  | InternalServerError py_exn

definition render :: "page \<Rightarrow> app_state \<Rightarrow> response \<times> app_state" where
  "render pg st = (let (msgs, st') = get_flashed_messages st in (Render pg msgs, st'))"

definition server_error :: "db_error \<Rightarrow> store \<Rightarrow> app_state \<Rightarrow> response \<times> app_state" where
  "server_error e s st = (InternalServerError (DbException e), st\<lparr>db := s\<rparr>)"

subsection \<open>The handlers\<close>

definition index :: "app_state \<Rightarrow> response \<times> app_state" where
  "index st = render (IndexPage (select_index (db st))) st"

definition create_form :: "app_state \<Rightarrow> response \<times> app_state" where
  "create_form st = render CreatePage st"

definition create_post :: "env \<Rightarrow> form \<Rightarrow> app_state \<Rightarrow> response \<times> app_state" where
  "create_post e f st =
     (let t = form_get f ''title''; a = form_get f ''author''; c = form_get f ''content''
      in if py_falsy t \<or> py_falsy a \<or> py_falsy c
         then (Redirect CreateForm, flash FillAllFields st)
         else (let (i, s') = insert_post (clock e) (the t) (the a) (the c) (db st)
               in (Redirect (ViewPost i), flash PostCreated (st\<lparr>db := s'\<rparr>))))"

definition view_post :: "env \<Rightarrow> post_key \<Rightarrow> app_state \<Rightarrow> response \<times> app_state" where
  "view_post e i st =
     (let s1 = incr_view_count i (db st); st1 = st\<lparr>db := s1\<rparr>
      in case select_post i s1 of
           None \<Rightarrow> (Redirect Index, flash PostNotFound st1)
         | Some p \<Rightarrow>
             (let cs = select_comments i s1;
                  liked = 0 < count_likes i (remote_addr e) s1
              in render (ViewPage p cs liked) st1))"

definition edit_form :: "post_key \<Rightarrow> app_state \<Rightarrow> response \<times> app_state" where
  "edit_form i st =
     (case select_post i (db st) of
        None \<Rightarrow> (Redirect Index, flash PostNotFound st)
      | Some p \<Rightarrow> render (EditPage p) st)"

definition edit_post :: "env \<Rightarrow> post_key \<Rightarrow> form \<Rightarrow> app_state \<Rightarrow> response \<times> app_state" where
  "edit_post e i f st =
     (let t = form_get f ''title''; c = form_get f ''content''
      in if py_falsy t \<or> py_falsy c
         then (Redirect (EditForm i), flash TitleContentRequired st)
         else (Redirect (ViewPost i),
               flash PostUpdated (st\<lparr>db := update_post (clock e) (the t) (the c) i (db st)\<rparr>)))"

definition delete_post :: "schema \<Rightarrow> post_key \<Rightarrow> app_state \<Rightarrow> response \<times> app_state" where
  "delete_post sc i st =
     (case delete_post_stmt sc i (db st) of
        (Some err, s') \<Rightarrow> server_error err s' st
      | (None, s') \<Rightarrow> (Redirect Index, flash PostDeleted (st\<lparr>db := s'\<rparr>)))"

definition add_comment :: "schema \<Rightarrow> env \<Rightarrow> post_key \<Rightarrow> form \<Rightarrow> app_state \<Rightarrow> response \<times> app_state" where
  "add_comment sc e i f st =
     (let a = form_get f ''author''; c = form_get f ''content''
      in if py_falsy a \<or> py_falsy c
         then (Redirect (ViewPost i), flash AuthorContentRequired st)
         else (case insert_comment (clock e) sc i (the a) (the c) (db st) of
                 (Some err, s') \<Rightarrow> server_error err s' st
               | (None, s') \<Rightarrow> (Redirect (ViewPost i), flash CommentAdded (st\<lparr>db := s'\<rparr>))))"

definition like_post :: "schema \<Rightarrow> env \<Rightarrow> post_key \<Rightarrow> app_state \<Rightarrow> response \<times> app_state" where
  "like_post sc e i st =
     (let ip = remote_addr e; s = db st
      in if 0 < count_likes i ip s
         then (Redirect (ViewPost i),
               flash LikeRemoved (st\<lparr>db := add_like_count i (-1) (delete_likes i ip s)\<rparr>))
         else (case insert_like sc i ip s of
                 (Some err, s1) \<Rightarrow> server_error err s1 st
               | (None, s1) \<Rightarrow>
                   (Redirect (ViewPost i), flash LikeAdded (st\<lparr>db := add_like_count i 1 s1\<rparr>))))"

text \<open>The \<^verbatim>\<open>try\<close> block of \<^verbatim>\<open>delete_batch\<close>: the conversion of the ids, then the
  one \<^verbatim>\<open>DELETE ... WHERE id = ANY(%s)\<close>. An exception leaves the store as it was
  when it was raised (\<^verbatim>\<open>rollback\<close> has nothing to undo under autocommit).\<close>

definition delete_batch_try :: "schema \<Rightarrow> string list \<Rightarrow> store \<Rightarrow> (py_exn \<times> store) + (nat \<times> store)" where
  "delete_batch_try sc pids s =
     (case parse_ids pids of
        Inl bad \<Rightarrow> Inl (ValueError bad, s)
      | Inr ids \<Rightarrow>
          (case delete_any_stmt sc ids s of
             (Some err, s') \<Rightarrow> Inl (DbException err, s')
           | (None, s') \<Rightarrow> Inr (length ids, s')))"

definition delete_batch :: "schema \<Rightarrow> form \<Rightarrow> app_state \<Rightarrow> response \<times> app_state" where
  "delete_batch sc f st =
     (let pids = form_getlist f ''post_ids''
      in if pids = [] then (Redirect Index, flash SelectToDelete st)
         else (case delete_batch_try sc pids (db st) of
                 Inl (ex, s') \<Rightarrow> (Redirect Index, flash (DeleteFailed ex) (st\<lparr>db := s'\<rparr>))
               | Inr (n, s') \<Rightarrow> (Redirect Index, flash (BatchDeleted n) (st\<lparr>db := s'\<rparr>))))"

definition fms_dashboard :: "app_state \<Rightarrow> response \<times> app_state" where
  "fms_dashboard st = render (FmsPage (fms_query (db st))) st"

subsection \<open>The route table\<close>

datatype request =
    GetIndex
  | GetCreate
  | PostCreate form
  | GetPost post_key
  | GetEdit post_key
  | PostEdit post_key form
  | PostDelete post_key
  | PostComment post_key form
  | PostLike post_key
  | PostDeleteBatch form
  | GetFms

fun handle :: "schema \<Rightarrow> env \<Rightarrow> request \<Rightarrow> app_state \<Rightarrow> response \<times> app_state" where
  "handle sc e GetIndex st = index st"
| "handle sc e GetCreate st = create_form st"
| "handle sc e (PostCreate f) st = create_post e f st"
| "handle sc e (GetPost i) st = view_post e i st"
| "handle sc e (GetEdit i) st = edit_form i st"
| "handle sc e (PostEdit i f) st = edit_post e i f st"
| "handle sc e (PostDelete i) st = delete_post sc i st"
| "handle sc e (PostComment i f) st = add_comment sc e i f st"
| "handle sc e (PostLike i) st = like_post sc e i st"
| "handle sc e (PostDeleteBatch f) st = delete_batch sc f st"
| "handle sc e GetFms st = fms_dashboard st"

text \<open>The server handles the requests one after the other, each with its own
  environment; only the client's session is kept between them.\<close>

fun serve :: "schema \<Rightarrow> (env \<times> request) list \<Rightarrow> app_state \<Rightarrow> app_state" where
  "serve sc [] st = st"
| "serve sc ((e, r) # rs) st = serve sc rs (snd (handle sc e r st))"

subsection \<open>Sample data for the witnesses\<close>

text \<open>A board with one post, a client, a complete create form and a schema with
  cascading foreign keys: the concrete inputs at which the witnesses below apply
  the handler lemmas.\<close>

definition demo_post :: post_row where
  "demo_post = \<lparr>p_id = 1, title = ''Hello'', author = ''kim'', content = ''first post'',
     created_at = 3, updated_at = None, view_count = 0, like_count = 0\<rparr>"

definition demo_state :: app_state where
  "demo_state = \<lparr>db = empty_store\<lparr>posts := [demo_post], post_seq := 1\<rparr>, flashes = []\<rparr>"

definition demo_env :: env where
  "demo_env = \<lparr>remote_addr = ''10.0.0.1'', clock = 7\<rparr>"

definition demo_form :: form where
  "demo_form = [(''title'', ''A''), (''author'', ''B''), (''content'', ''C'')]"

definition demo_cascade :: schema where
  "demo_cascade = \<lparr>fk = FkCascade, likes_unique = True\<rparr>"

lemmas demo_defs = demo_post_def demo_state_def demo_env_def demo_form_def demo_cascade_def
  empty_store_def form_get_def form_getlist_def

subsection \<open>Store effects and the store invariant\<close>

text \<open>Which store each handler leaves behind, and that every handler keeps
  \<open>board_inv\<close> when the schema enforces the foreign keys: the statement lemmas of
  theory \<open>Store\<close>, lifted through the handlers' branches.\<close>

lemma db_render [simp]: "db (snd (render pg st)) = db st"
  by (simp add: render_def get_flashed_messages_def)

lemma db_server_error [simp]: "db (snd (server_error err s st)) = s"
  by (simp add: server_error_def)

lemma insert_like_error_store: "insert_like sc i ip s = (Some err, s1) \<Longrightarrow> s1 = s"
  by (auto simp: insert_like_def split: if_splits)

lemma inv_create_post: "board_inv (db st) \<Longrightarrow> board_inv (db (snd (create_post e f st)))"
  by (simp add: create_post_def Let_def split_def board_inv_insert_post)

lemma inv_view_post: "board_inv (db st) \<Longrightarrow> board_inv (db (snd (view_post e i st)))"
  by (simp add: view_post_def Let_def board_inv_incr_view_count split: option.split)

lemma inv_edit_post: "board_inv (db st) \<Longrightarrow> board_inv (db (snd (edit_post e i f st)))"
  by (simp add: edit_post_def Let_def board_inv_update_post)

lemma db_delete_post: "db (snd (delete_post sc i st)) = snd (delete_post_stmt sc i (db st))"
  by (simp add: delete_post_def split: prod.split option.split)

lemma inv_delete_post:
  "fk sc \<noteq> NoForeignKey \<Longrightarrow> board_inv (db st) \<Longrightarrow> board_inv (db (snd (delete_post sc i st)))"
  by (simp add: db_delete_post delete_post_stmt_def board_inv_delete_posts_where)

lemma inv_add_comment:
  "fk sc \<noteq> NoForeignKey \<Longrightarrow> board_inv (db st) \<Longrightarrow> board_inv (db (snd (add_comment sc e i f st)))"
  using board_inv_insert_comment [of "db st" sc]
  by (simp add: add_comment_def Let_def split: prod.split option.split) (metis snd_conv)

lemma inv_like_post:
  assumes "fk sc \<noteq> NoForeignKey" "board_inv (db st)"
  shows "board_inv (db (snd (like_post sc e i st)))"
proof (cases "0 < count_likes i (remote_addr e) (db st)")
  case True
  with assms show ?thesis by (simp add: like_post_def board_inv_unlike)
next
  case False
  then have zero: "count_likes i (remote_addr e) (db st) = 0" by simp
  show ?thesis
  proof (cases "insert_like sc i (remote_addr e) (db st)")
    case (Pair r s1)
    show ?thesis
    proof (cases r)
      case None
      with Pair assms zero have "board_inv (add_like_count i 1 s1)"
        by (blast intro: board_inv_like)
      with False Pair None show ?thesis by (simp add: like_post_def)
    next
      case (Some err)
      with Pair have "s1 = db st" by (blast dest: insert_like_error_store)
      with False Pair Some assms show ?thesis by (simp add: like_post_def)
    qed
  qed
qed

lemma inv_delete_batch:
  assumes "fk sc \<noteq> NoForeignKey" "board_inv (db st)"
  shows "board_inv (db (snd (delete_batch sc f st)))"
proof -
  have "\<And>ids. board_inv (snd (delete_any_stmt sc ids (db st)))"
    using assms by (simp add: delete_any_stmt_def board_inv_delete_posts_where)
  then have "\<And>r. delete_batch_try sc (form_getlist f ''post_ids'') (db st) = r \<Longrightarrow>
               board_inv (case r of Inl (_, s') \<Rightarrow> s' | Inr (_, s') \<Rightarrow> s')"
    using assms(2)
    by (auto simp: delete_batch_try_def split: sum.split option.split prod.split) (metis snd_conv)+
  then show ?thesis
    by (auto simp: delete_batch_def Let_def assms(2) split: sum.split prod.split)
qed

lemma db_flash_state [simp]: "db (st\<lparr>flashes := m\<rparr>) = db st"
  by simp

lemma handle_board_inv:
  assumes "fk sc \<noteq> NoForeignKey" "board_inv (db st)"
  shows "board_inv (db (snd (handle sc e r st)))"
proof (cases r)
  case GetIndex then show ?thesis using assms by (simp add: index_def)
next
  case GetCreate then show ?thesis using assms by (simp add: create_form_def)
next
  case (PostCreate f) then show ?thesis using assms by (simp add: inv_create_post)
next
  case (GetPost i) then show ?thesis using assms by (simp add: inv_view_post)
next
  case (GetEdit i) then show ?thesis using assms by (simp add: edit_form_def split: option.split)
next
  case (PostEdit i f) then show ?thesis using assms by (simp add: inv_edit_post)
next
  case (PostDelete i) then show ?thesis using assms by (simp add: inv_delete_post)
next
  case (PostComment i f) then show ?thesis using assms by (simp add: inv_add_comment)
next
  case (PostLike i) then show ?thesis using assms by (simp add: inv_like_post)
next
  case (PostDeleteBatch f) then show ?thesis using assms by (simp add: inv_delete_batch)
next
  case GetFms then show ?thesis using assms by (simp add: fms_dashboard_def)
qed

lemma serve_board_inv:
  "fk sc \<noteq> NoForeignKey \<Longrightarrow> board_inv (db st) \<Longrightarrow> board_inv (db (serve sc rs st))"
  by (induction rs arbitrary: st) (auto simp: handle_board_inv)

subsection \<open>Behaviour of the handlers on each branch\<close>

text \<open>Two lemmas give the whole result of a handler on its main branch; the
  properties below are read off them.\<close>

lemma create_post_valid:
  assumes "form_get f ''title'' = Some t" "form_get f ''author'' = Some a"
    and "form_get f ''content'' = Some c" "t \<noteq> []" "a \<noteq> []" "c \<noteq> []"
  shows "create_post e f st =
     (Redirect (ViewPost (post_seq (db st) + 1)),
      st\<lparr>db := (db st)\<lparr>posts := posts (db st) @
              [\<lparr>p_id = post_seq (db st) + 1, title = t, author = c, content = a,
                created_at = clock e, updated_at = None, view_count = 0, like_count = 0\<rparr>],
                          post_seq := post_seq (db st) + 1\<rparr>,
          flashes := flashes st @ [PostCreated]\<rparr>)"
  using assms by (simp add: create_post_def insert_post_def flash_def Let_def)

lemma like_post_fresh:
  assumes "count_likes i (remote_addr e) (db st) = 0" "\<not> fk_missing sc i (db st)"
  shows "like_post sc e i st =
    (Redirect (ViewPost i),
     st\<lparr>db := add_like_count i 1 ((db st)\<lparr>likes := likes (db st) @ [\<lparr>l_post_id = i, l_user_ip = remote_addr e\<rparr>]\<rparr>),
        flashes := flashes st @ [LikeAdded]\<rparr>)"
  using assms by (simp add: like_post_def insert_like_fresh flash_def Let_def)

subsection \<open>Creating a post\<close>

text \<open>
  C3. \<^verbatim>\<open>create_post\<close> stores the submitted author in the column \<^verbatim>\<open>content\<close> and the
  submitted content in the column \<^verbatim>\<open>author\<close>: the INSERT names the columns
  \<^verbatim>\<open>(title, content, author)\<close> but passes \<^verbatim>\<open>(title, author, content)\<close>.
\<close>

theorem create_post_swaps_author_content:
  assumes "form_get f ''title'' = Some t" "form_get f ''author'' = Some a"
    and "form_get f ''content'' = Some c" "t \<noteq> []" "a \<noteq> []" "c \<noteq> []"
  shows "author (last (posts (db (snd (create_post e f st))))) = c \<and>
         content (last (posts (db (snd (create_post e f st))))) = a"
  using create_post_valid [OF assms] by simp

theorem create_post_swaps_author_content_witness:
  "form_get demo_form ''title'' = Some ''A'' \<and> form_get demo_form ''author'' = Some ''B''
   \<and> form_get demo_form ''content'' = Some ''C''
   \<and> author (last (posts (db (snd (create_post demo_env demo_form demo_state))))) = ''C''
   \<and> content (last (posts (db (snd (create_post demo_env demo_form demo_state))))) = ''B''"
proof -
  have f: "form_get demo_form ''title'' = Some ''A''" "form_get demo_form ''author'' = Some ''B''"
    "form_get demo_form ''content'' = Some ''C''" by (simp_all add: demo_defs)
  show ?thesis
    using f create_post_swaps_author_content [OF f, of demo_env demo_state] by simp
qed

text \<open>
  C4. With the three fields present, \<^verbatim>\<open>create_post\<close> adds exactly one post, at the
  end of the table, under an id no existing post has, with the submitted title, the
  request time as \<^verbatim>\<open>created_at\<close> and both counters at 0; it leaves the other tables
  alone, redirects to the new post's page and queues the success message.
\<close>

theorem create_post_ok:
  assumes "form_get f ''title'' = Some t" "form_get f ''author'' = Some a"
    and "form_get f ''content'' = Some c" "t \<noteq> []" "a \<noteq> []" "c \<noteq> []"
    and "board_inv (db st)"
    and "create_post e f st = (resp, st')"
  shows "\<exists>p. posts (db st') = posts (db st) @ [p]
             \<and> p_id p \<notin> set (map p_id (posts (db st)))
             \<and> title p = t \<and> view_count p = 0 \<and> like_count p = 0 \<and> created_at p = clock e
             \<and> resp = Redirect (ViewPost (p_id p))
             \<and> likes (db st') = likes (db st) \<and> comments (db st') = comments (db st)
             \<and> flashes st' = flashes st @ [PostCreated]"
proof -
  have fresh: "post_seq (db st) + 1 \<notin> set (map p_id (posts (db st)))"
    using assms(7) by (auto simp: board_inv_def list_all_iff)
  with create_post_valid [OF assms(1-6), of e st] assms(8) show ?thesis by auto
qed

theorem create_post_ok_witness:
  "board_inv (db demo_state) \<and>
   (\<exists>p. posts (db (snd (create_post demo_env demo_form demo_state))) = posts (db demo_state) @ [p]
        \<and> p_id p \<notin> set (map p_id (posts (db demo_state)))
        \<and> title p = ''A'' \<and> view_count p = 0 \<and> like_count p = 0 \<and> created_at p = clock demo_env
        \<and> fst (create_post demo_env demo_form demo_state) = Redirect (ViewPost (p_id p))
        \<and> likes (db (snd (create_post demo_env demo_form demo_state))) = likes (db demo_state)
        \<and> comments (db (snd (create_post demo_env demo_form demo_state))) = comments (db demo_state)
        \<and> flashes (snd (create_post demo_env demo_form demo_state)) = flashes demo_state @ [PostCreated])"
proof -
  have f: "form_get demo_form ''title'' = Some ''A''" "form_get demo_form ''author'' = Some ''B''"
    "form_get demo_form ''content'' = Some ''C''" by (simp_all add: demo_defs)
  have inv: "board_inv (db demo_state)"
    by (simp add: demo_defs board_inv_def likes_of_def)
  show ?thesis
    using inv create_post_ok [OF f _ _ _ inv, of demo_env "fst (create_post demo_env demo_form demo_state)"
        "snd (create_post demo_env demo_form demo_state)"] by simp
qed

lemma create_post_missing_field:
  assumes "py_falsy (form_get f ''title'') \<or> py_falsy (form_get f ''author'')
           \<or> py_falsy (form_get f ''content'')"
  shows "create_post e f st = (Redirect CreateForm, st\<lparr>flashes := flashes st @ [FillAllFields]\<rparr>)"
  using assms by (auto simp: create_post_def flash_def Let_def)

subsection \<open>Viewing a post\<close>

text \<open>
  C6. Viewing an existing post increments its \<^verbatim>\<open>view_count\<close> by exactly one and
  renders it, with its comments and whether this client has liked it, showing and
  clearing the pending flash messages.
\<close>

theorem view_post_increments:
  assumes "select_post i (db st) = Some p"
  shows "view_post e i st =
     (Render (ViewPage (p\<lparr>view_count := view_count p + 1\<rparr>) (select_comments i (db st))
                       (0 < count_likes i (remote_addr e) (db st))) (flashes st),
      st\<lparr>db := incr_view_count i (db st), flashes := []\<rparr>)"
proof -
  have "select_comments i (incr_view_count i (db st)) = select_comments i (db st)"
    and "count_likes i (remote_addr e) (incr_view_count i (db st)) = count_likes i (remote_addr e) (db st)"
    by (simp_all add: select_comments_def count_likes_def incr_view_count_def)
  with assms show ?thesis
    by (simp add: view_post_def select_post_incr_view_count render_def get_flashed_messages_def)
qed

theorem view_post_increments_witness:
  "select_post 1 (db demo_state) = Some demo_post \<and>
   view_post demo_env 1 demo_state =
     (Render (ViewPage (demo_post\<lparr>view_count := 1\<rparr>) [] False) [],
      demo_state\<lparr>db := incr_view_count 1 (db demo_state), flashes := []\<rparr>)"
proof -
  have h: "select_post 1 (db demo_state) = Some demo_post"
    by (simp add: demo_defs select_post_def)
  show ?thesis
    using h view_post_increments [OF h, of demo_env]
    by (simp add: demo_defs select_comments_def count_likes_def)
qed

text \<open>
  C7. Viewing a post id that does not exist changes nothing in the store (the
  view-count update matches no row), redirects to the list and queues the
  not-found message.
\<close>

theorem view_post_not_found:
  assumes "select_post i (db st) = None"
  shows "view_post e i st = (Redirect Index, st\<lparr>flashes := flashes st @ [PostNotFound]\<rparr>)"
  using assms by (simp add: view_post_def incr_view_count_absent flash_def)

theorem view_post_not_found_witness:
  "select_post 5 (db demo_state) = None \<and>
   view_post demo_env 5 demo_state = (Redirect Index, demo_state\<lparr>flashes := [PostNotFound]\<rparr>)"
proof -
  have h: "select_post 5 (db demo_state) = None"
    by (simp add: demo_defs select_post_def)
  show ?thesis
    using h view_post_not_found [OF h, of demo_env] by (simp add: demo_state_def)
qed

subsection \<open>Toggling a like\<close>

text \<open>
  C8. Two like toggles in a row by the same client on a post it had not liked
  return the store exactly to where it was: the like row added by the first is
  the one the second deletes, and the counter goes up and back down.
\<close>

theorem like_twice_roundtrip:
  assumes "count_likes i (remote_addr e) (db st) = 0" "\<not> fk_missing sc i (db st)"
  shows "db (snd (like_post sc e i (snd (like_post sc e i st)))) = db st"
proof -
  let ?ip = "remote_addr e" and ?s = "db st"
  let ?s1 = "add_like_count i 1 (?s\<lparr>likes := likes ?s @ [\<lparr>l_post_id = i, l_user_ip = ?ip\<rparr>]\<rparr>)"
  obtain st1 where st1: "snd (like_post sc e i st) = st1" and first: "db st1 = ?s1"
    using like_post_fresh [OF assms] by simp
  have pos: "0 < count_likes i ?ip ?s1"
    using assms(1) by (simp add: count_likes_def add_like_count_def)
  have del: "delete_likes i ?ip ?s1 = add_like_count i 1 ?s"
    using count_likes_zero_filter [OF assms(1)]
    by (simp add: delete_likes_add_like_count) (simp add: delete_likes_def add_like_count_def)
  have "db (snd (like_post sc e i st1)) = add_like_count i (-1) (delete_likes i ?ip ?s1)"
    using pos by (simp add: like_post_def first Let_def)
  then show ?thesis
    by (simp add: st1 del add_like_count_cancel)
qed

theorem like_twice_roundtrip_witness:
  "count_likes 1 (remote_addr demo_env) (db demo_state) = 0 \<and> \<not> fk_missing demo_cascade 1 (db demo_state)
   \<and> db (snd (like_post demo_cascade demo_env 1 (snd (like_post demo_cascade demo_env 1 demo_state))))
       = db demo_state"
proof -
  have h: "count_likes 1 (remote_addr demo_env) (db demo_state) = 0"
    "\<not> fk_missing demo_cascade 1 (db demo_state)"
    by (simp_all add: demo_defs count_likes_def fk_missing_def post_exists_def)
  show ?thesis using h like_twice_roundtrip [OF h] by simp
qed

text \<open>
  C9. A toggle by a client that has not liked the post adds exactly one like row,
  for that post and client, and raises that post's \<^verbatim>\<open>like_count\<close> by one,
  leaving every other counter alone.
\<close>

theorem like_post_adds_one:
  assumes "count_likes i (remote_addr e) (db st) = 0" "\<not> fk_missing sc i (db st)"
  shows "count_likes i (remote_addr e) (db (snd (like_post sc e i st))) = 1
       \<and> likes_of i (db (snd (like_post sc e i st))) = likes_of i (db st) + 1
       \<and> map like_count (posts (db (snd (like_post sc e i st)))) =
           map (\<lambda>p. if p_id p = i then like_count p + 1 else like_count p) (posts (db st))
       \<and> fst (like_post sc e i st) = Redirect (ViewPost i)"
  using like_post_fresh [OF assms] assms(1)
  by (simp add: count_likes_def likes_of_def add_like_count_def update_where_def)

theorem like_post_adds_one_witness:
  "count_likes 1 (remote_addr demo_env) (db demo_state) = 0 \<and> \<not> fk_missing demo_cascade 1 (db demo_state)
   \<and> map like_count (posts (db (snd (like_post demo_cascade demo_env 1 demo_state)))) = [1]"
proof -
  have h: "count_likes 1 (remote_addr demo_env) (db demo_state) = 0"
    "\<not> fk_missing demo_cascade 1 (db demo_state)"
    by (simp_all add: demo_defs count_likes_def fk_missing_def post_exists_def)
  show ?thesis using h like_post_adds_one [OF h] by (simp add: demo_defs)
qed

subsection \<open>Editing a post\<close>

lemma edit_post_missing_field:
  assumes "py_falsy (form_get f ''title'') \<or> py_falsy (form_get f ''content'')"
  shows "edit_post e i f st = (Redirect (EditForm i), st\<lparr>flashes := flashes st @ [TitleContentRequired]\<rparr>)"
  using assms by (auto simp: edit_post_def flash_def Let_def)

text \<open>
  C11. A complete edit rewrites the title and the content of the post with that id
  and stamps \<^verbatim>\<open>updated_at\<close> with the request time; no other post changes, and
  the id, author, creation time and both counters of every post stay as they were.
\<close>

theorem edit_post_ok:
  assumes "form_get f ''title'' = Some t" "form_get f ''content'' = Some c" "t \<noteq> []" "c \<noteq> []"
  shows "select_post i (db (snd (edit_post e i f st))) =
           map_option (\<lambda>p. p\<lparr>title := t, content := c, updated_at := Some (clock e)\<rparr>) (select_post i (db st))
       \<and> (\<forall>k. k \<noteq> i \<longrightarrow> select_post k (db (snd (edit_post e i f st))) = select_post k (db st))
       \<and> map (\<lambda>p. (p_id p, author p, created_at p, view_count p, like_count p)) (posts (db (snd (edit_post e i f st))))
         = map (\<lambda>p. (p_id p, author p, created_at p, view_count p, like_count p)) (posts (db st))
       \<and> fst (edit_post e i f st) = Redirect (ViewPost i)"
  using assms
  by (simp add: edit_post_def update_post_def select_post_def find_update_where_key
      find_update_where_other map_update_where_frame Let_def)

theorem edit_post_ok_witness:
  "form_get [(''title'', ''T''), (''content'', ''X'')] ''title'' = Some ''T''
   \<and> form_get [(''title'', ''T''), (''content'', ''X'')] ''content'' = Some ''X''
   \<and> select_post 1 (db (snd (edit_post demo_env 1 [(''title'', ''T''), (''content'', ''X'')] demo_state)))
       = Some (demo_post\<lparr>title := ''T'', content := ''X'', updated_at := Some 7\<rparr>)"
proof -
  have h: "form_get [(''title'', ''T''), (''content'', ''X'')] ''title'' = Some ''T''"
    "form_get [(''title'', ''T''), (''content'', ''X'')] ''content'' = Some ''X''"
    by (simp_all add: form_get_def)
  have sp: "select_post 1 (db demo_state) = Some demo_post"
    by (simp add: demo_defs select_post_def)
  show ?thesis
    using h sp edit_post_ok [OF h, of 1 demo_env demo_state] by (simp add: demo_env_def)
qed

subsection \<open>Deleting posts in a batch\<close>

text \<open>
  C12. When every submitted id is a valid integer and the schema does not block
  the delete, \<^verbatim>\<open>delete_batch\<close> removes exactly the posts whose ids were
  submitted and keeps every other post in order; it flashes the number of
  submitted entries and redirects to the list.
\<close>

theorem delete_batch_exact:
  assumes "form_getlist f ''post_ids'' = pids" "pids \<noteq> []" "parse_ids pids = Inr ids"
    and "fk sc \<noteq> FkNoAction"
  shows "posts (db (snd (delete_batch sc f st))) = filter (\<lambda>p. p_id p \<notin> set ids) (posts (db st))
       \<and> flashes (snd (delete_batch sc f st)) = flashes st @ [BatchDeleted (length pids)]
       \<and> fst (delete_batch sc f st) = Redirect Index"
proof -
  have len: "length ids = length pids"
    using parse_ids_Inr [OF assms(3)] by (simp add: list_all2_lengthD)
  obtain s' where ok: "delete_any_stmt sc ids (db st) = (None, s')"
    and ps: "posts s' = filter (\<lambda>p. p_id p \<notin> set ids) (posts (db st))"
    using assms(4) by (cases "fk sc") (auto simp: delete_any_stmt_def delete_posts_where_def Let_def)
  then show ?thesis
    using assms(1-3) len by (simp add: delete_batch_def delete_batch_try_def flash_def)
qed

theorem delete_batch_exact_witness:
  "form_getlist [(''post_ids'', ''1'')] ''post_ids'' = [''1''] \<and> [''1''] \<noteq> []
   \<and> parse_ids [''1''] = Inr [1] \<and> fk demo_cascade \<noteq> FkNoAction
   \<and> posts (db (snd (delete_batch demo_cascade [(''post_ids'', ''1'')] demo_state))) = []"
proof -
  have h: "form_getlist [(''post_ids'', ''1'')] ''post_ids'' = [''1'']" "[''1''] \<noteq> []"
    "parse_ids [''1''] = Inr [1]" "fk demo_cascade \<noteq> FkNoAction"
    by (simp_all add: demo_defs py_int_def py_strip_def py_space_def py_digit_def digits_value_def)
  show ?thesis
    using h delete_batch_exact [OF h, of demo_state] by (simp add: demo_defs)
qed

lemma delete_batch_empty_selection:
  assumes "form_getlist f ''post_ids'' = []"
  shows "delete_batch sc f st = (Redirect Index, st\<lparr>flashes := flashes st @ [SelectToDelete]\<rparr>)"
  using assms by (simp add: delete_batch_def flash_def)

text \<open>
  C14. A submitted id that is not an integer makes \<^verbatim>\<open>int()\<close> raise before any
  statement runs; the handler catches it, leaves the store as it was, flashes the
  error (naming the offending entry) and redirects to the list.
\<close>

theorem delete_batch_value_error:
  assumes "form_getlist f ''post_ids'' = pids" "pids \<noteq> []" "parse_ids pids = Inl bad"
  shows "delete_batch sc f st =
           (Redirect Index, st\<lparr>flashes := flashes st @ [DeleteFailed (ValueError bad)]\<rparr>)
       \<and> bad \<in> set pids \<and> py_int bad = None"
  using assms parse_ids_Inl [OF assms(3)]
  by (simp add: delete_batch_def delete_batch_try_def flash_def)

theorem delete_batch_value_error_witness:
  "form_getlist [(''post_ids'', ''1''), (''post_ids'', ''x'')] ''post_ids'' = [''1'', ''x'']
   \<and> parse_ids [''1'', ''x''] = Inl ''x''
   \<and> delete_batch demo_cascade [(''post_ids'', ''1''), (''post_ids'', ''x'')] demo_state =
       (Redirect Index, demo_state\<lparr>flashes := [DeleteFailed (ValueError ''x'')]\<rparr>)"
proof -
  have h: "form_getlist [(''post_ids'', ''1''), (''post_ids'', ''x'')] ''post_ids'' = [''1'', ''x'']"
    "[''1'', ''x''] \<noteq> []" "parse_ids [''1'', ''x''] = Inl ''x''"
    by (simp_all add: form_getlist_def py_int_def py_strip_def py_space_def py_digit_def digits_value_def)
  show ?thesis
    using h delete_batch_value_error [OF h, of demo_cascade demo_state] by (simp add: demo_state_def)
qed

subsection \<open>Deleting one post\<close>

text \<open>
  C15. When the schema's foreign keys have no cascade, deleting a post that still
  has a comment or a like fails in the database; the handler does not catch the
  error, so the client gets a server error and the store is unchanged.
\<close>

theorem delete_post_blocked:
  assumes "fk sc = FkNoAction" "post_exists i (db st)"
    and "list_ex (\<lambda>l. l_post_id l = i) (likes (db st)) \<or> list_ex (\<lambda>c. c_post_id c = i) (comments (db st))"
  shows "delete_post sc i st = (InternalServerError (DbException ForeignKeyViolation), st)"
proof -
  have "delete_post_stmt sc i (db st) = (Some ForeignKeyViolation, db st)"
    using assms by (auto simp: delete_post_stmt_def delete_posts_where_def Let_def list_ex_iff)
  then show ?thesis by (simp add: delete_post_def server_error_def)
qed

theorem delete_post_blocked_witness:
  "fk \<lparr>fk = FkNoAction, likes_unique = True\<rparr> = FkNoAction
   \<and> post_exists 1 (db (demo_state\<lparr>db := (db demo_state)\<lparr>likes := [\<lparr>l_post_id = 1, l_user_ip = ''x''\<rparr>]\<rparr>\<rparr>))
   \<and> delete_post \<lparr>fk = FkNoAction, likes_unique = True\<rparr> 1
         (demo_state\<lparr>db := (db demo_state)\<lparr>likes := [\<lparr>l_post_id = 1, l_user_ip = ''x''\<rparr>]\<rparr>\<rparr>)
       = (InternalServerError (DbException ForeignKeyViolation),
          demo_state\<lparr>db := (db demo_state)\<lparr>likes := [\<lparr>l_post_id = 1, l_user_ip = ''x''\<rparr>]\<rparr>\<rparr>)"
proof -
  let ?st = "demo_state\<lparr>db := (db demo_state)\<lparr>likes := [\<lparr>l_post_id = 1, l_user_ip = ''x''\<rparr>]\<rparr>\<rparr>"
  have h: "fk \<lparr>fk = FkNoAction, likes_unique = True\<rparr> = FkNoAction" "post_exists 1 (db ?st)"
    "list_ex (\<lambda>l. l_post_id l = 1) (likes (db ?st)) \<or> list_ex (\<lambda>c. c_post_id c = 1) (comments (db ?st))"
    by (simp_all add: demo_defs post_exists_def)
  show ?thesis using h delete_post_blocked [OF h] by simp
qed

text \<open>
  C16. With cascading foreign keys, deleting a post removes every post with that
  id together with its comments and likes, leaves all other rows, flashes the
  success message and redirects; a missing id is deleted silently, with the same
  message.
\<close>

theorem delete_post_cascade:
  assumes "fk sc = FkCascade"
  shows "delete_post sc i st =
    (Redirect Index,
     st\<lparr>db := (db st)\<lparr>posts := filter (\<lambda>p. p_id p \<noteq> i) (posts (db st)),
                        likes := filter (\<lambda>l. l_post_id l \<noteq> i \<or> \<not> post_exists i (db st)) (likes (db st)),
                        comments := filter (\<lambda>c. c_post_id c \<noteq> i \<or> \<not> post_exists i (db st)) (comments (db st))\<rparr>,
        flashes := flashes st @ [PostDeleted]\<rparr>)"
  using assms by (simp add: delete_post_def delete_post_stmt_def delete_posts_where_def flash_def Let_def)

theorem delete_post_cascade_witness:
  "fk demo_cascade = FkCascade \<and>
   delete_post demo_cascade 1 demo_state =
     (Redirect Index, demo_state\<lparr>db := (db demo_state)\<lparr>posts := []\<rparr>, flashes := [PostDeleted]\<rparr>)"
proof -
  have h: "fk demo_cascade = FkCascade" by (simp add: demo_cascade_def)
  show ?thesis
    using h delete_post_cascade [OF h, of 1 demo_state] by (simp add: demo_defs)
qed

subsection \<open>Commenting\<close>

lemma add_comment_missing_field:
  assumes "py_falsy (form_get f ''author'') \<or> py_falsy (form_get f ''content'')"
  shows "add_comment sc e i f st =
           (Redirect (ViewPost i), st\<lparr>flashes := flashes st @ [AuthorContentRequired]\<rparr>)"
  using assms by (auto simp: add_comment_def flash_def Let_def)

text \<open>
  C18. A complete comment on a post the schema accepts is appended to the comments
  with the next comment id, the post id from the path, the submitted author and
  content and the request time; nothing else in the store changes, and the
  handler redirects to the post with the comment-added message.
\<close>

theorem add_comment_ok:
  assumes "form_get f ''author'' = Some a" "form_get f ''content'' = Some c" "a \<noteq> []" "c \<noteq> []"
    and "\<not> fk_missing sc i (db st)"
  shows "add_comment sc e i f st =
    (Redirect (ViewPost i),
     st\<lparr>db := (db st)\<lparr>comment_seq := comment_seq (db st) + 1,
                        comments := comments (db st) @
                          [\<lparr>c_id = comment_seq (db st) + 1, c_post_id = i, c_author = a,
                            c_content = c, c_created_at = clock e\<rparr>]\<rparr>,
        flashes := flashes st @ [CommentAdded]\<rparr>)"
  using assms by (simp add: add_comment_def insert_comment_def flash_def Let_def)

theorem add_comment_ok_witness:
  "form_get demo_form ''author'' = Some ''B'' \<and> form_get demo_form ''content'' = Some ''C''
   \<and> \<not> fk_missing demo_cascade 1 (db demo_state)
   \<and> comments (db (snd (add_comment demo_cascade demo_env 1 demo_form demo_state))) =
       [\<lparr>c_id = 1, c_post_id = 1, c_author = ''B'', c_content = ''C'', c_created_at = 7\<rparr>]"
proof -
  have h: "form_get demo_form ''author'' = Some ''B''" "form_get demo_form ''content'' = Some ''C''"
    "''B'' \<noteq> []" "''C'' \<noteq> []" "\<not> fk_missing demo_cascade 1 (db demo_state)"
    by (simp_all add: demo_defs fk_missing_def post_exists_def)
  show ?thesis
    using h add_comment_ok [OF h, of demo_env] by (simp add: demo_defs)
qed

subsection \<open>Failed form checks\<close>

text \<open>
  C5. A failed form check is recoverable and changes no data (spec, section 7):
  when the title, the author or the content of a new post, the title or the
  content of an edit, or the author or the content of a comment is missing or
  empty, or when a batch delete selects nothing, the handler runs no statement,
  queues its message and redirects back: to the create form, to the edit form,
  to the post, or to the list.
\<close>

theorem form_check_failures:
  "(py_falsy (form_get f ''title'') \<or> py_falsy (form_get f ''author'') \<or> py_falsy (form_get f ''content'')
      \<longrightarrow> create_post e f st = (Redirect CreateForm, flash FillAllFields st))
   \<and> (py_falsy (form_get f ''title'') \<or> py_falsy (form_get f ''content'')
      \<longrightarrow> edit_post e i f st = (Redirect (EditForm i), flash TitleContentRequired st))
   \<and> (py_falsy (form_get f ''author'') \<or> py_falsy (form_get f ''content'')
      \<longrightarrow> add_comment sc e i f st = (Redirect (ViewPost i), flash AuthorContentRequired st))
   \<and> (form_getlist f ''post_ids'' = []
      \<longrightarrow> delete_batch sc f st = (Redirect Index, flash SelectToDelete st))"
  by (simp add: flash_def create_post_missing_field edit_post_missing_field
      add_comment_missing_field delete_batch_empty_selection)

theorem form_check_failures_witness:
  "py_falsy (form_get [] ''author'') \<and> py_falsy (form_get [] ''content'') \<and> form_getlist [] ''post_ids'' = []
   \<and> create_post demo_env [] demo_state = (Redirect CreateForm, flash FillAllFields demo_state)
   \<and> edit_post demo_env 1 [] demo_state = (Redirect (EditForm 1), flash TitleContentRequired demo_state)
   \<and> add_comment demo_cascade demo_env 1 [] demo_state
       = (Redirect (ViewPost 1), flash AuthorContentRequired demo_state)
   \<and> delete_batch demo_cascade [] demo_state = (Redirect Index, flash SelectToDelete demo_state)"
proof -
  have h: "py_falsy (form_get [] ''author'')" "py_falsy (form_get [] ''content'')"
    "form_getlist [] ''post_ids'' = []"
    by (simp_all add: form_get_def form_getlist_def)
  from form_check_failures [of "[]" demo_env demo_state 1 demo_cascade] h show ?thesis by simp
qed

end
