(* ===== verification/LikeRace.thy ===== *)
theory LikeRace
  imports Handlers
begin

text \<open>
  Concurrent like toggles. \<^verbatim>\<open>like_post\<close> (\<^verbatim>\<open>src/app.py\<close> lines 169-190) is
  a read followed by two writes, each its own autocommit statement, with nothing
  that makes the three atomic; Flask's development server (\<^verbatim>\<open>app.run\<close>, line 253)
  handles requests on threads, so the statements of two toggles can interleave.
  A toggle in flight is a \<open>like_thread\<close>: the post, the client address and a
  program counter that says which statement runs next. \<open>like_thread_step\<close>
  runs that statement on the shared store; \<open>race_step\<close> lets any unfinished
  thread take its next step. Run alone, a thread does exactly what the handler
  does to the store; interleaved, two toggles of the same client can leave the
  counter and the like rows out of step.
\<close>

datatype like_pc = LStart | LChecked bool | LWrote bool | LDone | LFailed db_error

record like_thread =
  lt_post :: post_key
  lt_ip :: ip_addr
  lt_pc :: like_pc

definition like_thread_step :: "schema \<Rightarrow> like_thread \<Rightarrow> store \<Rightarrow> (like_thread \<times> store) option" where
  "like_thread_step sc t s =
     (let i = lt_post t; ip = lt_ip t
      in case lt_pc t of
           LStart \<Rightarrow> Some (t\<lparr>lt_pc := LChecked (0 < count_likes i ip s)\<rparr>, s)
         | LChecked True \<Rightarrow> Some (t\<lparr>lt_pc := LWrote True\<rparr>, delete_likes i ip s)
         | LChecked False \<Rightarrow>
             (case insert_like sc i ip s of
                (None, s') \<Rightarrow> Some (t\<lparr>lt_pc := LWrote False\<rparr>, s')
              | (Some err, s') \<Rightarrow> Some (t\<lparr>lt_pc := LFailed err\<rparr>, s'))
         | LWrote True \<Rightarrow> Some (t\<lparr>lt_pc := LDone\<rparr>, add_like_count i (-1) s)
         | LWrote False \<Rightarrow> Some (t\<lparr>lt_pc := LDone\<rparr>, add_like_count i 1 s)
         | LDone \<Rightarrow> None
         | LFailed err \<Rightarrow> None)"

definition toggle :: "post_key \<Rightarrow> ip_addr \<Rightarrow> like_thread" where
  "toggle i ip = \<lparr>lt_post = i, lt_ip = ip, lt_pc = LStart\<rparr>"

text \<open>A thread left alone, for at most \<open>n\<close> statements.\<close>

fun thread_run :: "schema \<Rightarrow> nat \<Rightarrow> like_thread \<Rightarrow> store \<Rightarrow> like_thread \<times> store" where
  "thread_run sc 0 t s = (t, s)"
| "thread_run sc (Suc n) t s =
     (case like_thread_step sc t s of None \<Rightarrow> (t, s) | Some (t', s') \<Rightarrow> thread_run sc n t' s')"

inductive race_step :: "schema \<Rightarrow> store \<times> like_thread list \<Rightarrow> store \<times> like_thread list \<Rightarrow> bool"
  for sc :: schema where
  step: "k < length ts \<Longrightarrow> like_thread_step sc (ts ! k) s = Some (t', s') \<Longrightarrow>
         race_step sc (s, ts) (s', ts[k := t'])"

text \<open>A schedule names, step by step, the thread that runs next; a thread that
  has finished (or an index out of range) is skipped.\<close>

fun run_schedule :: "schema \<Rightarrow> nat list \<Rightarrow> store \<times> like_thread list \<Rightarrow> store \<times> like_thread list" where
  "run_schedule sc [] c = c"
| "run_schedule sc (k # ks) (s, ts) =
     (if k < length ts
      then (case like_thread_step sc (ts ! k) s of
              None \<Rightarrow> run_schedule sc ks (s, ts)
            | Some (t', s') \<Rightarrow> run_schedule sc ks (s', ts[k := t']))
      else run_schedule sc ks (s, ts))"

definition finished :: "like_thread \<Rightarrow> bool" where
  "finished t = (case lt_pc t of LDone \<Rightarrow> True | LFailed _ \<Rightarrow> True | _ \<Rightarrow> False)"

text \<open>Boards for the race scenarios: post 1, liked once by the client
  \<^verbatim>\<open>10.0.0.9\<close>, or not liked at all.\<close>

definition race_post :: "int \<Rightarrow> post_row" where
  "race_post n = \<lparr>p_id = 1, title = ''t'', author = ''a'', content = ''c'', created_at = 0,
     updated_at = None, view_count = 0, like_count = n\<rparr>"

definition liked_board :: store where
  "liked_board = empty_store\<lparr>posts := [race_post 1],
     likes := [\<lparr>l_post_id = 1, l_user_ip = ''10.0.0.9''\<rparr>], post_seq := 1\<rparr>"

definition unliked_board :: store where
  "unliked_board = empty_store\<lparr>posts := [race_post 0], post_seq := 1\<rparr>"

subsection \<open>Schedules, single steps, and a thread run alone\<close>

lemma run_schedule_race_steps: "(race_step sc)\<^sup>*\<^sup>* c (run_schedule sc ks c)"
proof (induction ks arbitrary: c)
  case Nil
  then show ?case by simp
next
  case (Cons k ks)
  obtain s ts where c: "c = (s, ts)" by (cases c)
  show ?case
  proof (cases "k < length ts")
    case True
    show ?thesis
    proof (cases "like_thread_step sc (ts ! k) s")
      case None
      with True c Cons.IH show ?thesis by simp
    next
      case (Some r)
      obtain t' s' where r: "r = (t', s')" by (cases r)
      with Some True have "race_step sc (s, ts) (s', ts[k := t'])"
        by (auto intro: race_step.step)
      moreover have "(race_step sc)\<^sup>*\<^sup>* (s', ts[k := t']) (run_schedule sc ks (s', ts[k := t']))"
        by (rule Cons.IH)
      ultimately show ?thesis
        using True Some r c by (simp add: converse_rtranclp_into_rtranclp)
    qed
  next
    case False
    with c Cons.IH show ?thesis by simp
  qed
qed

lemma like_thread_step_simps [simp]:
  "like_thread_step sc \<lparr>lt_post = i, lt_ip = ip, lt_pc = LStart\<rparr> s =
     Some (\<lparr>lt_post = i, lt_ip = ip, lt_pc = LChecked (0 < count_likes i ip s)\<rparr>, s)"
  "like_thread_step sc \<lparr>lt_post = i, lt_ip = ip, lt_pc = LChecked True\<rparr> s =
     Some (\<lparr>lt_post = i, lt_ip = ip, lt_pc = LWrote True\<rparr>, delete_likes i ip s)"
  "like_thread_step sc \<lparr>lt_post = i, lt_ip = ip, lt_pc = LChecked False\<rparr> s =
     (case insert_like sc i ip s of
        (None, s') \<Rightarrow> Some (\<lparr>lt_post = i, lt_ip = ip, lt_pc = LWrote False\<rparr>, s')
      | (Some err, s') \<Rightarrow> Some (\<lparr>lt_post = i, lt_ip = ip, lt_pc = LFailed err\<rparr>, s'))"
  "like_thread_step sc \<lparr>lt_post = i, lt_ip = ip, lt_pc = LWrote True\<rparr> s =
     Some (\<lparr>lt_post = i, lt_ip = ip, lt_pc = LDone\<rparr>, add_like_count i (-1) s)"
  "like_thread_step sc \<lparr>lt_post = i, lt_ip = ip, lt_pc = LWrote False\<rparr> s =
     Some (\<lparr>lt_post = i, lt_ip = ip, lt_pc = LDone\<rparr>, add_like_count i 1 s)"
  "like_thread_step sc \<lparr>lt_post = i, lt_ip = ip, lt_pc = LDone\<rparr> s = None"
  "like_thread_step sc \<lparr>lt_post = i, lt_ip = ip, lt_pc = LFailed err\<rparr> s = None"
  by (simp_all add: like_thread_step_def split: prod.split option.split)

lemma thread_run_toggle:
  "snd (thread_run sc 3 (toggle i (remote_addr e)) (db st)) = db (snd (like_post sc e i st))
   \<and> finished (fst (thread_run sc 3 (toggle i (remote_addr e)) (db st)))"
proof -
  let ?ip = "remote_addr e" and ?s = "db st"
  have three: "(3::nat) = Suc (Suc (Suc 0))" by simp
  show ?thesis
  proof (cases "0 < count_likes i ?ip ?s")
    case True
    then show ?thesis
      by (simp add: three toggle_def like_post_def finished_def Let_def)
  next
    case False
    obtain r s' where ins: "insert_like sc i ?ip ?s = (r, s')" by (cases "insert_like sc i ?ip ?s")
    show ?thesis
      using False ins
      by (cases r) (simp_all add: three toggle_def like_post_def finished_def server_error_def Let_def)
  qed
qed


subsection \<open>Interleaved toggles\<close>

text \<open>
  C25. Two toggles of the same client on a post it has liked, interleaved
  statement by statement, both see the like, both delete it (the second delete
  matches nothing) and both decrement: the board starts consistent and ends with
  \<^verbatim>\<open>like_count = -1\<close> and no like row, whatever the schema.
\<close>

theorem unlike_race_breaks_counter:
  "board_inv liked_board
   \<and> (race_step sc)\<^sup>*\<^sup>* (liked_board, [toggle 1 ''10.0.0.9'', toggle 1 ''10.0.0.9''])
        (run_schedule sc [0, 1, 0, 1, 0, 1] (liked_board, [toggle 1 ''10.0.0.9'', toggle 1 ''10.0.0.9'']))
   \<and> (let (s', ts') = run_schedule sc [0, 1, 0, 1, 0, 1]
                          (liked_board, [toggle 1 ''10.0.0.9'', toggle 1 ''10.0.0.9''])
       in list_all finished ts' \<and> map like_count (posts s') = [-1] \<and> likes s' = [] \<and> \<not> board_inv s')"
proof -
  have "board_inv liked_board"
    by (simp add: liked_board_def race_post_def empty_store_def board_inv_def likes_of_def post_exists_def)
  moreover have "(race_step sc)\<^sup>*\<^sup>* (liked_board, [toggle 1 ''10.0.0.9'', toggle 1 ''10.0.0.9''])
        (run_schedule sc [0, 1, 0, 1, 0, 1] (liked_board, [toggle 1 ''10.0.0.9'', toggle 1 ''10.0.0.9'']))"
    by (rule run_schedule_race_steps)
  moreover have "let (s', ts') = run_schedule sc [0, 1, 0, 1, 0, 1]
                          (liked_board, [toggle 1 ''10.0.0.9'', toggle 1 ''10.0.0.9''])
       in list_all finished ts' \<and> map like_count (posts s') = [-1] \<and> likes s' = [] \<and> \<not> board_inv s'"
    by (simp add: liked_board_def race_post_def empty_store_def toggle_def count_likes_def
        delete_likes_def add_like_count_def finished_def board_inv_def likes_of_def)
  ultimately show ?thesis by blast
qed


text \<open>
  C26. Without a key on \<^verbatim>\<open>(post_id, user_ip)\<close>, two interleaved toggles of a
  client that has not liked the post both insert a like: the table holds the same
  like twice with \<^verbatim>\<open>like_count = 2\<close>, and the client's next toggle deletes
  both rows but decrements once, leaving a count of 1 with no like behind it.
\<close>

theorem like_race_duplicates_without_key:
  assumes "\<not> likes_unique sc"
  shows "let (s', ts') = run_schedule sc [0, 1, 0, 1, 0, 1]
                          (unliked_board, [toggle 1 ''10.0.0.9'', toggle 1 ''10.0.0.9''])
         in list_all finished ts'
            \<and> likes s' = [\<lparr>l_post_id = 1, l_user_ip = ''10.0.0.9''\<rparr>, \<lparr>l_post_id = 1, l_user_ip = ''10.0.0.9''\<rparr>]
            \<and> map like_count (posts s') = [2] \<and> \<not> board_inv s'
            \<and> map like_count (posts (snd (thread_run sc 3 (toggle 1 ''10.0.0.9'') s'))) = [1]
            \<and> likes (snd (thread_run sc 3 (toggle 1 ''10.0.0.9'') s')) = []"
proof -
  have three: "(3::nat) = Suc (Suc (Suc 0))" by simp
  show ?thesis
    using assms
    by (simp add: three unliked_board_def race_post_def empty_store_def toggle_def count_likes_def
        insert_like_def fk_missing_def post_exists_def delete_likes_def add_like_count_def
        finished_def board_inv_def)
qed

theorem like_race_duplicates_without_key_witness:
  "\<not> likes_unique \<lparr>fk = FkCascade, likes_unique = False\<rparr>
   \<and> (let (s', ts') = run_schedule \<lparr>fk = FkCascade, likes_unique = False\<rparr> [0, 1, 0, 1, 0, 1]
                          (unliked_board, [toggle 1 ''10.0.0.9'', toggle 1 ''10.0.0.9''])
      in map like_count (posts s') = [2] \<and> \<not> board_inv s')"
  using like_race_duplicates_without_key [of "\<lparr>fk = FkCascade, likes_unique = False\<rparr>"]
  by (simp add: split_def Let_def)

text \<open>
  C27. With the key, the same interleaving makes the second insert fail: the
  first toggle completes, the second ends in a unique violation (an uncaught
  error, so that client gets a server error page), and the store invariant holds.
\<close>

theorem like_race_with_key_rejects_second:
  assumes "likes_unique sc"
  shows "let (s', ts') = run_schedule sc [0, 1, 0, 1, 0, 1]
                          (unliked_board, [toggle 1 ''10.0.0.9'', toggle 1 ''10.0.0.9''])
         in lt_pc (ts' ! 0) = LDone \<and> lt_pc (ts' ! 1) = LFailed UniqueViolation
            \<and> map like_count (posts s') = [1] \<and> board_inv s'"
  using assms
  by (simp add: unliked_board_def race_post_def empty_store_def toggle_def count_likes_def
      insert_like_def fk_missing_def post_exists_def add_like_count_def board_inv_def likes_of_def)

theorem like_race_with_key_rejects_second_witness:
  "likes_unique \<lparr>fk = FkCascade, likes_unique = True\<rparr>
   \<and> (let (s', ts') = run_schedule \<lparr>fk = FkCascade, likes_unique = True\<rparr> [0, 1, 0, 1, 0, 1]
                          (unliked_board, [toggle 1 ''10.0.0.9'', toggle 1 ''10.0.0.9''])
      in lt_pc (ts' ! 1) = LFailed UniqueViolation \<and> board_inv s')"
  using like_race_with_key_rejects_second [of "\<lparr>fk = FkCascade, likes_unique = True\<rparr>"]
  by (simp add: split_def Let_def)

end
