(* ===== verification/Router.thy ===== *)
theory Router
  imports Handlers
begin

text \<open>
  The URL map of \<^verbatim>\<open>src/app.py\<close>: one rule per \<^verbatim>\<open>@app.route\<close> decorator, with
  its path pattern, its methods and its handler, and the matching that Werkzeug
  does for them. A path is split at \<^verbatim>\<open>/\<close> after its leading slash, so
  \<^verbatim>\<open>/create/\<close> is the segments \<^verbatim>\<open>create\<close> and the empty string. A literal
  segment matches itself; \<^verbatim>\<open><int:post_id>\<close> matches a non-empty run of ASCII
  digits (Werkzeug's pattern \<^verbatim>\<open>\d+\<close>, no sign) and passes \<^verbatim>\<open>int\<close> of it.
  A path that matches a rule under another method answers 405; a path that
  matches a rule once a slash is appended is redirected there (strict slashes);
  anything else answers 404. Werkzeug lets a HEAD request match every rule that
  has GET, and Flask adds OPTIONS to every rule and answers it itself with the
  methods the path allows; a 405 response lists the same methods. \<open>url_for\<close>
  builds the paths the handlers redirect to.
\<close>

datatype http_method = GET | POST | HEAD | OPTIONS

datatype segment = Lit string | IntArg

datatype route_ep =
    EpIndex | EpCreateForm | EpCreatePost | EpViewPost | EpEditForm | EpEditPost
  | EpDeletePost | EpAddComment | EpLikePost | EpDeleteBatch | EpFms

record url_rule =
  r_path :: "segment list"
  r_method :: http_method
  r_endpoint :: route_ep

definition url_rules :: "url_rule list" where
  "url_rules =
    [\<lparr>r_path = [Lit ''''], r_method = GET, r_endpoint = EpIndex\<rparr>,
     \<lparr>r_path = [Lit ''create'', Lit ''''], r_method = GET, r_endpoint = EpCreateForm\<rparr>,
     \<lparr>r_path = [Lit ''create'', Lit ''''], r_method = POST, r_endpoint = EpCreatePost\<rparr>,
     \<lparr>r_path = [Lit ''post'', IntArg], r_method = GET, r_endpoint = EpViewPost\<rparr>,
     \<lparr>r_path = [Lit ''edit'', IntArg], r_method = GET, r_endpoint = EpEditForm\<rparr>,
     \<lparr>r_path = [Lit ''edit'', IntArg], r_method = POST, r_endpoint = EpEditPost\<rparr>,
     \<lparr>r_path = [Lit ''delete'', IntArg], r_method = POST, r_endpoint = EpDeletePost\<rparr>,
     \<lparr>r_path = [Lit ''post'', Lit ''comment'', IntArg], r_method = POST, r_endpoint = EpAddComment\<rparr>,
     \<lparr>r_path = [Lit ''post'', Lit ''like'', IntArg], r_method = POST, r_endpoint = EpLikePost\<rparr>,
     \<lparr>r_path = [Lit ''delete'', Lit ''batch''], r_method = POST, r_endpoint = EpDeleteBatch\<rparr>,
     \<lparr>r_path = [Lit ''fms''], r_method = GET, r_endpoint = EpFms\<rparr>]"

definition int_segment :: "string \<Rightarrow> int option" where
  "int_segment w =
     (if w \<noteq> [] \<and> list_all (\<lambda>ch. py_digit ch \<noteq> None) w
      then Some (int (digits_value (map (\<lambda>ch. case py_digit ch of Some d \<Rightarrow> d | None \<Rightarrow> 0) w)))
      else None)"

fun match_segments :: "segment list \<Rightarrow> string list \<Rightarrow> int list option" where
  "match_segments [] [] = Some []"
| "match_segments (Lit l # ps) (w # ws) =
     (if l = w then match_segments ps ws else None)"
| "match_segments (IntArg # ps) (w # ws) =
     (case int_segment w of
        None \<Rightarrow> None
      | Some n \<Rightarrow> map_option (Cons n) (match_segments ps ws))"
| "match_segments _ _ = None"

fun split_on_slash :: "string \<Rightarrow> string list" where
  "split_on_slash [] = [[]]"
| "split_on_slash (ch # rest) =
     (let ws = split_on_slash rest
      in if ch = CHR ''/'' then [] # ws else (ch # hd ws) # tl ws)"

definition path_segments :: "string \<Rightarrow> string list option" where
  "path_segments p = (case p of CHR ''/'' # rest \<Rightarrow> Some (split_on_slash rest) | _ \<Rightarrow> None)"

text \<open>The methods a rule answers: its own, HEAD with GET (Werkzeug), and OPTIONS
  (Flask's automatic options), which Flask answers without calling the view.\<close>

definition method_matches :: "http_method \<Rightarrow> http_method \<Rightarrow> bool" where
  "method_matches rm m = (m = rm \<or> (m = HEAD \<and> rm = GET))"

definition rule_methods :: "url_rule \<Rightarrow> http_method list" where
  "rule_methods r = (if r_method r = GET then [GET, HEAD, OPTIONS] else [r_method r, OPTIONS])"

definition rule_args :: "http_method \<Rightarrow> string \<Rightarrow> url_rule \<Rightarrow> int list option" where
  "rule_args m p r =
     (if method_matches (r_method r) m
      then (case path_segments p of None \<Rightarrow> None | Some ws \<Rightarrow> match_segments (r_path r) ws)
      else None)"

definition path_matches :: "string \<Rightarrow> url_rule \<Rightarrow> bool" where
  "path_matches p r = (case path_segments p of None \<Rightarrow> False | Some ws \<Rightarrow> match_segments (r_path r) ws \<noteq> None)"

definition allowed_methods :: "string \<Rightarrow> http_method list" where
  "allowed_methods p = remdups (concat (map rule_methods (filter (path_matches p) url_rules)))"

datatype route_result =
    Routed request
  | OptionsAllow "http_method list"
  | MethodNotAllowed "http_method list"
  | RedirectSlash string
  | NotFound

fun request_of :: "route_ep \<Rightarrow> int list \<Rightarrow> form \<Rightarrow> request option" where
  "request_of EpIndex [] f = Some GetIndex"
| "request_of EpCreateForm [] f = Some GetCreate"
| "request_of EpCreatePost [] f = Some (PostCreate f)"
| "request_of EpViewPost [i] f = Some (GetPost i)"
| "request_of EpEditForm [i] f = Some (GetEdit i)"
| "request_of EpEditPost [i] f = Some (PostEdit i f)"
| "request_of EpDeletePost [i] f = Some (PostDelete i)"
| "request_of EpAddComment [i] f = Some (PostComment i f)"
| "request_of EpLikePost [i] f = Some (PostLike i)"
| "request_of EpDeleteBatch [] f = Some (PostDeleteBatch f)"
| "request_of EpFms [] f = Some GetFms"
| "request_of _ _ _ = None"

fun first_match :: "http_method \<Rightarrow> string \<Rightarrow> form \<Rightarrow> url_rule list \<Rightarrow> request option" where
  "first_match m p f [] = None"
| "first_match m p f (r # rs) =
     (case rule_args m p r of
        Some args \<Rightarrow> request_of (r_endpoint r) args f
      | None \<Rightarrow> first_match m p f rs)"

definition route :: "http_method \<Rightarrow> string \<Rightarrow> form \<Rightarrow> route_result" where
  "route m p f =
     (case first_match m p f url_rules of
        Some r \<Rightarrow> Routed r
      | None \<Rightarrow>
          if list_ex (path_matches p) url_rules
          then (if m = OPTIONS then OptionsAllow (allowed_methods p) else MethodNotAllowed (allowed_methods p))
          else if list_ex (path_matches (p @ ''/'')) url_rules then RedirectSlash (p @ ''/'')
          else NotFound)"

text \<open>\<^verbatim>\<open>url_for(endpoint, post_id=...)\<close> as Flask computes it: the rule of the
  endpoint is looked up in the URL map and its pattern is filled in, a literal
  segment as it is and an \<^verbatim>\<open><int:...>\<close> segment with \<^verbatim>\<open>str\<close> of the argument;
  no rule, or arguments that do not fit it, is a \<^verbatim>\<open>BuildError\<close> (\<open>None\<close>).\<close>

fun endpoint_name :: "endpoint \<Rightarrow> route_ep" where
  "endpoint_name Index = EpIndex"
| "endpoint_name CreateForm = EpCreateForm"
| "endpoint_name (ViewPost i) = EpViewPost"
| "endpoint_name (EditForm i) = EpEditForm"

fun endpoint_args :: "endpoint \<Rightarrow> int list" where
  "endpoint_args (ViewPost i) = [i]"
| "endpoint_args (EditForm i) = [i]"
| "endpoint_args _ = []"

fun build_segments :: "segment list \<Rightarrow> int list \<Rightarrow> string list option" where
  "build_segments [] [] = Some []"
| "build_segments (Lit l # ps) args = map_option (Cons l) (build_segments ps args)"
| "build_segments (IntArg # ps) (a # args) = map_option (Cons (str_int a)) (build_segments ps args)"
| "build_segments _ _ = None"

fun join_segments :: "string list \<Rightarrow> string" where
  "join_segments [] = []"
| "join_segments [w] = w"
| "join_segments (w # ws) = w @ ''/'' @ join_segments ws"

definition url_build :: "url_rule \<Rightarrow> int list \<Rightarrow> string option" where
  "url_build r args = map_option (\<lambda>ws. CHR ''/'' # join_segments ws) (build_segments (r_path r) args)"

definition url_for :: "endpoint \<Rightarrow> string option" where
  "url_for ep =
     (case find (\<lambda>r. r_endpoint r = endpoint_name ep) url_rules of
        None \<Rightarrow> None
      | Some r \<Rightarrow> url_build r (endpoint_args ep))"

fun get_request_of :: "endpoint \<Rightarrow> request" where
  "get_request_of Index = GetIndex"
| "get_request_of CreateForm = GetCreate"
| "get_request_of (ViewPost i) = GetPost i"
| "get_request_of (EditForm i) = GetEdit i"

text \<open>Two rules are disjoint when they differ in method or no path matches both
  patterns; \<open>seg_compat\<close> says some path could match both.\<close>

fun seg_compat :: "segment list \<Rightarrow> segment list \<Rightarrow> bool" where
  "seg_compat [] [] = True"
| "seg_compat (Lit a # ps) (Lit b # qs) = (a = b \<and> seg_compat ps qs)"
| "seg_compat (Lit a # ps) (IntArg # qs) = (int_segment a \<noteq> None \<and> seg_compat ps qs)"
| "seg_compat (IntArg # ps) (Lit b # qs) = (int_segment b \<noteq> None \<and> seg_compat ps qs)"
| "seg_compat (IntArg # ps) (IntArg # qs) = seg_compat ps qs"
| "seg_compat _ _ = False"

definition rules_disjoint :: "url_rule \<Rightarrow> url_rule \<Rightarrow> bool" where
  "rules_disjoint r r' =
     (\<not> list_ex (\<lambda>m. method_matches (r_method r) m \<and> method_matches (r_method r') m) [GET, POST, HEAD, OPTIONS]
      \<or> \<not> seg_compat (r_path r) (r_path r'))"

text \<open>The endpoints \<open>url_for\<close> is called with by the handlers: ids are those of
  a routed request or issued by the sequence, so they are never negative.\<close>

fun endpoint_ok :: "endpoint \<Rightarrow> bool" where
  "endpoint_ok (ViewPost i) = (0 \<le> i)"
| "endpoint_ok (EditForm i) = (0 \<le> i)"
| "endpoint_ok _ = True"

text \<open>The ids a request carries: the router only produces non-negative ones.\<close>

fun request_ids_ok :: "request \<Rightarrow> bool" where
  "request_ids_ok (GetPost i) = (0 \<le> i)"
| "request_ids_ok (GetEdit i) = (0 \<le> i)"
| "request_ids_ok (PostEdit i f) = (0 \<le> i)"
| "request_ids_ok (PostDelete i) = (0 \<le> i)"
| "request_ids_ok (PostComment i f) = (0 \<le> i)"
| "request_ids_ok (PostLike i) = (0 \<le> i)"
| "request_ids_ok _ = True"

text \<open>What a response may show: the well-formedness of a response against the
  store the handler leaves behind.\<close>

definition response_wf :: "store \<Rightarrow> response \<Rightarrow> bool" where
  "response_wf s r =
     (case r of
        Redirect ep \<Rightarrow> endpoint_ok ep
      | Render (IndexPage rows) msgs \<Rightarrow> list_all (\<lambda>row. row \<in> set (map index_row_of (posts s))) rows
      | Render CreatePage msgs \<Rightarrow> True
      | Render (ViewPage p cs liked) msgs \<Rightarrow> p \<in> set (posts s) \<and> list_all (\<lambda>c. c_post_id c = p_id p) cs
      | Render (EditPage p) msgs \<Rightarrow> p \<in> set (posts s)
      | Render (FmsPage d) msgs \<Rightarrow> total d = length (chick_info s) \<and> length (recent_chicks d) \<le> 5
      | InternalServerError ex \<Rightarrow> True)"

subsection \<open>The URL map is unambiguous and \<open>url_for\<close> routes back\<close>

lemma match_segments_compat:
  "match_segments ps ws \<noteq> None \<Longrightarrow> match_segments qs ws \<noteq> None \<Longrightarrow> seg_compat ps qs"
proof (induction ps ws arbitrary: qs rule: match_segments.induct)
  case 1
  then show ?case by (cases qs) auto
next
  case (2 l ps w ws)
  then show ?case
    by (cases qs; cases "hd qs") (auto split: if_splits option.splits)
next
  case (3 ps w ws)
  then show ?case
    by (cases qs; cases "hd qs") (auto split: if_splits option.splits)
qed auto

lemma length_filter_le_one:
  "sorted_wrt (\<lambda>x y. \<not> (P x \<and> P y)) xs \<Longrightarrow> length (filter P xs) \<le> 1"
proof (induction xs)
  case Nil
  then show ?case by simp
next
  case (Cons x xs)
  show ?case
  proof (cases "P x")
    case True
    with Cons.prems have "filter P xs = []" by (auto simp: filter_empty_conv)
    with True show ?thesis by simp
  next
    case False
    with Cons show ?thesis by simp
  qed
qed

lemma method_matches_overlap:
  "method_matches rm m \<Longrightarrow> method_matches rm' m \<Longrightarrow>
   list_ex (\<lambda>m. method_matches rm m \<and> method_matches rm' m) [GET, POST, HEAD, OPTIONS]"
  by (cases m) auto

lemma url_rules_disjoint: "sorted_wrt rules_disjoint url_rules"
  by (simp add: url_rules_def rules_disjoint_def int_segment_def py_digit_def method_matches_def)

text \<open>
  C28. The URL map is unambiguous: for every method and every path at most one
  rule of \<^verbatim>\<open>src/app.py\<close> matches, so the order in which Werkzeug tries
  the rules never decides which handler runs.
\<close>

theorem route_unambiguous: "length (filter (\<lambda>r. rule_args m p r \<noteq> None) url_rules) \<le> 1"
proof (rule length_filter_le_one)
  show "sorted_wrt (\<lambda>x y. \<not> (rule_args m p x \<noteq> None \<and> rule_args m p y \<noteq> None)) url_rules"
    using url_rules_disjoint
  proof (rule sorted_wrt_mono_rel [rotated])
    fix x y
    assume "rules_disjoint x y"
    then show "\<not> (rule_args m p x \<noteq> None \<and> rule_args m p y \<noteq> None)"
      by (auto simp: rules_disjoint_def rule_args_def split: option.splits if_splits
          dest: match_segments_compat method_matches_overlap)
  qed
qed


lemma digit_char_not_slash: "d < 10 \<Longrightarrow> digit_char d \<noteq> CHR ''/''"
proof
  assume "d < 10" "digit_char d = CHR ''/''"
  then have "(of_char (digit_char d) :: nat) = 47" by simp
  with \<open>d < 10\<close> show False by (simp add: of_char_digit_char)
qed

lemma split_on_slash_no_slash: "CHR ''/'' \<notin> set w \<Longrightarrow> split_on_slash w = [w]"
  by (induction w) auto

lemma int_segment_str_int: "0 \<le> i \<Longrightarrow> int_segment (str_int i) = Some i"
proof -
  assume nn: "0 \<le> i"
  let ?ds = "nat_digits (nat i)"
  have small: "\<forall>d \<in> set ?ds. d < 10" by (simp add: nat_digits_small)
  then have "map (\<lambda>ch. case py_digit ch of Some d \<Rightarrow> d | None \<Rightarrow> 0) (map digit_char ?ds) = ?ds"
    by (simp add: comp_def) (rule map_idI, simp add: py_digit_digit_char)
  moreover have "list_all (\<lambda>ch. py_digit ch \<noteq> None) (map digit_char ?ds)"
    using small by (auto simp: list_all_iff py_digit_digit_char)
  moreover have "map digit_char ?ds \<noteq> []" by (simp add: nat_digits_nonempty)
  ultimately show ?thesis
    using nn by (simp add: int_segment_def str_int_def digits_value_nat_digits)
qed

lemma slash_notin_str_int: "0 \<le> i \<Longrightarrow> CHR ''/'' \<notin> set (str_int i)"
  unfolding str_int_def using digit_char_not_slash nat_digits_small by force

lemma split_str_int: "0 \<le> i \<Longrightarrow> split_on_slash (str_int i) = [str_int i]"
  by (rule split_on_slash_no_slash) (rule slash_notin_str_int)

lemma url_for_paths:
  "url_for Index = Some ''/''"
  "url_for CreateForm = Some ''/create/''"
  "url_for (ViewPost i) = Some (''/post/'' @ str_int i)"
  "url_for (EditForm i) = Some (''/edit/'' @ str_int i)"
  by (simp_all add: url_for_def url_rules_def url_build_def)

lemma url_for_roundtrip:
  "endpoint_ok ep \<Longrightarrow> \<exists>p. url_for ep = Some p \<and> route GET p f = Routed (get_request_of ep)"
proof (cases ep)
  case Index
  then show ?thesis
    by (simp add: url_for_paths route_def url_rules_def rule_args_def method_matches_def path_segments_def)
next
  case CreateForm
  then show ?thesis
    by (simp add: url_for_paths route_def url_rules_def rule_args_def method_matches_def path_segments_def)
next
  case (ViewPost i)
  moreover assume "endpoint_ok ep"
  ultimately have "0 \<le> i" by simp
  with ViewPost show ?thesis
    by (simp add: url_for_paths route_def url_rules_def rule_args_def method_matches_def
        path_segments_def split_str_int int_segment_str_int)
next
  case (EditForm i)
  moreover assume "endpoint_ok ep"
  ultimately have "0 \<le> i" by simp
  with EditForm show ?thesis
    by (simp add: url_for_paths route_def url_rules_def rule_args_def method_matches_def
        path_segments_def split_str_int int_segment_str_int)
qed

subsection \<open>HEAD and OPTIONS\<close>

lemma url_rules_no_head: "list_all (\<lambda>r. r_method r \<noteq> HEAD \<and> r_method r \<noteq> OPTIONS) url_rules"
  by (simp add: url_rules_def)

lemma first_match_head:
  "list_all (\<lambda>r. r_method r \<noteq> HEAD \<and> r_method r \<noteq> OPTIONS) rs \<Longrightarrow>
   first_match HEAD p f rs = first_match GET p f rs \<and> first_match OPTIONS p f rs = None"
  by (induction rs) (auto simp: rule_args_def method_matches_def split: option.split)

text \<open>A HEAD request is routed, answered with 405 or redirected exactly as the GET
  request for the same path, so the view function runs with all its statements
  (\<^verbatim>\<open>HEAD /post/<id>\<close> counts a view); an OPTIONS request never reaches a view.\<close>

lemma route_head_as_get: "route HEAD p f = route GET p f"
  using first_match_head [OF url_rules_no_head] by (simp add: route_def)

lemma route_options_no_view: "route OPTIONS p f \<noteq> Routed r"
  using first_match_head [OF url_rules_no_head] by (simp add: route_def)

lemma head_counts_view:
  "0 \<le> i \<Longrightarrow> \<exists>p. url_for (ViewPost i) = Some p \<and> route HEAD p f = Routed (GetPost i)"
  using url_for_roundtrip [of "ViewPost i" f] by (simp add: route_head_as_get)

subsection \<open>Routed requests and redirect targets\<close>

lemma match_segments_nonneg: "match_segments ps ws = Some args \<Longrightarrow> list_all ((\<le>) 0) args"
  by (induction ps ws arbitrary: args rule: match_segments.induct)
     (auto simp: int_segment_def split: if_splits option.splits)

lemma request_of_ids_ok: "request_of ep args f = Some r \<Longrightarrow> list_all ((\<le>) 0) args \<Longrightarrow> request_ids_ok r"
  by (induction ep args f rule: request_of.induct) auto

lemma first_match_ids_ok: "first_match m p f rs = Some r \<Longrightarrow> request_ids_ok r"
  by (induction rs) (auto simp: rule_args_def split: option.splits if_splits
      intro: request_of_ids_ok match_segments_nonneg)

lemma route_ids_ok: "route m p f = Routed r \<Longrightarrow> request_ids_ok r"
  by (auto simp: route_def split: option.splits if_splits intro: first_match_ids_ok)

lemma handle_redirect_ok:
  assumes "0 \<le> post_seq (db st)" and "request_ids_ok r" and "fst (handle sc e r st) = Redirect ep"
  shows "endpoint_ok ep"
  using assms
  by (cases r) (auto simp: index_def create_form_def create_post_def view_post_def edit_form_def
      edit_post_def delete_post_def add_comment_def like_post_def delete_batch_def fms_dashboard_def
      render_def server_error_def insert_post_def Let_def
      split: option.splits prod.splits if_splits sum.splits)

subsection \<open>Well-formed responses\<close>

lemma select_post_Some: "select_post i s = Some p \<Longrightarrow> p \<in> set (posts s) \<and> p_id p = i"
  by (auto simp: select_post_def dest: find_Some_iff [THEN iffD1] simp: find_Some_iff)

lemma response_wf_render:
  "response_wf s (fst (render pg st)) = response_wf s (Render pg [])"
  by (simp add: render_def get_flashed_messages_def response_wf_def split: page.split)

lemma select_comments_post: "list_all (\<lambda>c. c_post_id c = i) (select_comments i s)"
  by (simp add: select_comments_def list_all_iff)

lemma select_index_rows: "list_all (\<lambda>row. row \<in> index_row_of ` set (posts s)) (select_index s)"
  by (simp add: select_index_def list_all_iff)

lemma view_post_wf:
  "response_wf (db (snd (view_post e i st))) (fst (view_post e i st)) \<or> (\<exists>ep. fst (view_post e i st) = Redirect ep)"
proof (cases "select_post i (incr_view_count i (db st))")
  case None
  then show ?thesis by (simp add: view_post_def)
next
  case (Some p)
  from select_post_Some [OF Some] have "p \<in> set (posts (incr_view_count i (db st)))" "p_id p = i" by simp_all
  with Some show ?thesis
    by (simp add: view_post_def Let_def render_def get_flashed_messages_def response_wf_def select_comments_post)
qed

lemma handle_render_wf:
  "fst (handle sc e r st) = Render pg msgs \<Longrightarrow> response_wf (db (snd (handle sc e r st))) (Render pg msgs)"
proof (cases r)
  case (GetPost i)
  moreover assume "fst (handle sc e r st) = Render pg msgs"
  ultimately show ?thesis using view_post_wf [of e i st] by auto
next
  case (GetEdit i)
  moreover assume "fst (handle sc e r st) = Render pg msgs"
  ultimately show ?thesis
    by (auto simp: edit_form_def render_def get_flashed_messages_def response_wf_def
        dest: select_post_Some split: option.splits)
qed (auto simp: index_def create_form_def create_post_def edit_post_def delete_post_def add_comment_def
     like_post_def delete_batch_def fms_dashboard_def render_def get_flashed_messages_def
     server_error_def response_wf_def select_index_rows fms_query_def fms_summary_def fms_recent_def
     Let_def split: option.splits prod.splits if_splits sum.splits)

text \<open>
  C10. Every response is well-formed with respect to the store it leaves (spec,
  sections 4 and 6): on a board whose invariant holds, a request the router can
  produce is answered either with a redirect whose \<^verbatim>\<open>url_for\<close> target is a
  valid path, or with a page that shows only rows of the store (the list page only
  posts that exist, the view and edit pages an existing post, the view page only
  that post's comments, the dashboard the count of all chick rows and at most five
  of them), or with a 500 response.
\<close>

theorem handle_response_wf:
  assumes "board_inv (db st)" and "request_ids_ok r"
  shows "response_wf (db (snd (handle sc e r st))) (fst (handle sc e r st))"
proof (cases "fst (handle sc e r st)")
  case (Redirect ep)
  from assms have "0 \<le> post_seq (db st)" by (simp add: board_inv_def)
  from handle_redirect_ok [OF this assms(2) Redirect] Redirect show ?thesis
    by (simp add: response_wf_def)
next
  case (Render pg msgs)
  with handle_render_wf [OF Render] show ?thesis by simp
next
  case (InternalServerError ex)
  then show ?thesis by (simp add: response_wf_def)
qed

theorem handle_response_wf_witness:
  "board_inv (db demo_state) \<and> request_ids_ok (GetPost 1)
   \<and> response_wf (db (snd (handle demo_cascade demo_env (GetPost 1) demo_state)))
        (fst (handle demo_cascade demo_env (GetPost 1) demo_state))"
proof -
  have h: "board_inv (db demo_state)" "request_ids_ok (GetPost 1)"
    by (simp_all add: demo_defs board_inv_def likes_of_def)
  from handle_response_wf [OF h, of demo_cascade demo_env] h show ?thesis by simp
qed

end
