(* ===== verification/Connection.thy ===== *)
theory Connection
  imports Handlers
begin

text \<open>
  The connection provider and the configuration it reads. At start-up
  \<^verbatim>\<open>src/app.py\<close> (lines 10-11) loads a \<^verbatim>\<open>.env\<close> file when there is one;
  python-dotenv does not override variables the process environment already
  has. \<^verbatim>\<open>get_db_connection\<close> (lines 16-27) reads the five \<^verbatim>\<open>DB_*\<close> variables
  with \<^verbatim>\<open>os.getenv\<close>, which gives \<^verbatim>\<open>None\<close> for a missing one, and passes them
  to \<^verbatim>\<open>psycopg2.connect\<close>, which leaves the \<^verbatim>\<open>None\<close> ones out of the
  connection string so that libpq's defaults apply. Whether the server accepts a
  connection is decided outside the program: \<open>accepts\<close> answers, for the
  connection string and the number of the attempt within the request, whether it
  succeeds; a refused connection raises \<^verbatim>\<open>OperationalError\<close>.

  The handlers below are those of theory \<open>Handlers\<close> with their connection
  points: each opens its connection where the source does (after the form checks
  of \<^verbatim>\<open>create_post\<close>, \<^verbatim>\<open>edit_post\<close> and \<^verbatim>\<open>add_comment\<close>, inside the
  \<^verbatim>\<open>try\<close> of \<^verbatim>\<open>delete_batch\<close>, twice in \<^verbatim>\<open>view_post\<close>); \<^verbatim>\<open>create_form\<close>
  opens none. An uncaught \<^verbatim>\<open>OperationalError\<close> is a 500 response. The
  session cookie, signed with the secret key drawn at start-up, is read back only
  under the same key.
\<close>

type_synonym environ = "string \<rightharpoonup> string"

definition load_dotenv :: "bool \<Rightarrow> environ \<Rightarrow> environ \<Rightarrow> environ" where
  "load_dotenv env_file_exists dotenv os_env = (if env_file_exists then dotenv ++ os_env else os_env)"

text \<open>The session travels in a cookie signed with \<^verbatim>\<open>app.secret_key\<close>, which line 13
  draws afresh from \<^verbatim>\<open>os.urandom(24)\<close> at every start. A cookie is read back only
  when its signature checks under the current key; the signature is modelled as
  the key that made it.\<close>

type_synonym secret_key = string

record session_cookie =
  signed_with :: secret_key
  cookie_flashes :: "flash_msg list"

definition save_session :: "secret_key \<Rightarrow> app_state \<Rightarrow> session_cookie" where
  "save_session k st = \<lparr>signed_with = k, cookie_flashes = flashes st\<rparr>"

definition open_session :: "secret_key \<Rightarrow> session_cookie option \<Rightarrow> flash_msg list" where
  "open_session k c = (case c of None \<Rightarrow> [] | Some ck \<Rightarrow> if signed_with ck = k then cookie_flashes ck else [])"

record conn_params =
  cp_host :: "string option"
  cp_port :: "string option"
  cp_dbname :: "string option"
  cp_user :: "string option"
  cp_password :: "string option"

definition db_params :: "environ \<Rightarrow> conn_params" where
  "db_params env = \<lparr>cp_host = env ''DB_HOST'', cp_port = env ''DB_PORT'',
     cp_dbname = env ''DB_NAME'', cp_user = env ''DB_USER'', cp_password = env ''DB_PASSWORD''\<rparr>"

definition make_dsn :: "conn_params \<Rightarrow> (string \<times> string) list" where
  "make_dsn cp = List.map_filter (\<lambda>(k, v). map_option (Pair k) v)
     [(''host'', cp_host cp), (''port'', cp_port cp), (''dbname'', cp_dbname cp),
      (''user'', cp_user cp), (''password'', cp_password cp)]"

record conn_env =
  environ :: environ
  accepts :: "(string \<times> string) list \<Rightarrow> nat \<Rightarrow> bool"

definition get_db_connection :: "conn_env \<Rightarrow> nat \<Rightarrow> py_exn + unit" where
  "get_db_connection ce k =
     (if accepts ce (make_dsn (db_params (environ ce))) k then Inr () else Inl OperationalError)"

text \<open>A handler body run on the connection number \<open>k\<close> of the request.\<close>

definition connected :: "conn_env \<Rightarrow> nat \<Rightarrow> (app_state \<Rightarrow> response \<times> app_state) \<Rightarrow>
    app_state \<Rightarrow> response \<times> app_state" where
  "connected ce k body st =
     (case get_db_connection ce k of Inl ex \<Rightarrow> (InternalServerError ex, st) | Inr _ \<Rightarrow> body st)"

subsection \<open>The handlers with their connections\<close>

definition index_c :: "conn_env \<Rightarrow> app_state \<Rightarrow> response \<times> app_state" where
  "index_c ce st = connected ce 0 index st"

definition create_post_c :: "env \<Rightarrow> conn_env \<Rightarrow> form \<Rightarrow> app_state \<Rightarrow> response \<times> app_state" where
  "create_post_c e ce f st =
     (let t = form_get f ''title''; a = form_get f ''author''; c = form_get f ''content''
      in if py_falsy t \<or> py_falsy a \<or> py_falsy c
         then (Redirect CreateForm, flash FillAllFields st)
         else connected ce 0 (create_post e f) st)"

definition view_post_c :: "env \<Rightarrow> conn_env \<Rightarrow> post_key \<Rightarrow> app_state \<Rightarrow> response \<times> app_state" where
  "view_post_c e ce i st =
     connected ce 0 (\<lambda>st.
       let s1 = incr_view_count i (db st); st1 = st\<lparr>db := s1\<rparr>
       in case select_post i s1 of
            None \<Rightarrow> (Redirect Index, flash PostNotFound st1)
          | Some p \<Rightarrow>
              (let cs = select_comments i s1
               in connected ce 1 (render (ViewPage p cs (0 < count_likes i (remote_addr e) s1))) st1)) st"

definition edit_form_c :: "conn_env \<Rightarrow> post_key \<Rightarrow> app_state \<Rightarrow> response \<times> app_state" where
  "edit_form_c ce i st = connected ce 0 (edit_form i) st"

definition edit_post_c :: "env \<Rightarrow> conn_env \<Rightarrow> post_key \<Rightarrow> form \<Rightarrow> app_state \<Rightarrow> response \<times> app_state" where
  "edit_post_c e ce i f st =
     (let t = form_get f ''title''; c = form_get f ''content''
      in if py_falsy t \<or> py_falsy c
         then (Redirect (EditForm i), flash TitleContentRequired st)
         else connected ce 0 (edit_post e i f) st)"

definition delete_post_c :: "schema \<Rightarrow> conn_env \<Rightarrow> post_key \<Rightarrow> app_state \<Rightarrow> response \<times> app_state" where
  "delete_post_c sc ce i st = connected ce 0 (delete_post sc i) st"

definition add_comment_c :: "schema \<Rightarrow> env \<Rightarrow> conn_env \<Rightarrow> post_key \<Rightarrow> form \<Rightarrow> app_state \<Rightarrow> response \<times> app_state" where
  "add_comment_c sc e ce i f st =
     (let a = form_get f ''author''; c = form_get f ''content''
      in if py_falsy a \<or> py_falsy c
         then (Redirect (ViewPost i), flash AuthorContentRequired st)
         else connected ce 0 (add_comment sc e i f) st)"

definition like_post_c :: "schema \<Rightarrow> env \<Rightarrow> conn_env \<Rightarrow> post_key \<Rightarrow> app_state \<Rightarrow> response \<times> app_state" where
  "like_post_c sc e ce i st = connected ce 0 (like_post sc e i) st"

text \<open>In \<^verbatim>\<open>delete_batch\<close> the connection is opened inside the \<^verbatim>\<open>try\<close>: a refused
  connection is caught like any other error, flashed, and answered with the
  redirect to the list (\<^verbatim>\<open>conn\<close> stays \<^verbatim>\<open>None\<close>, so nothing is rolled back or
  closed).\<close>

definition delete_batch_c :: "schema \<Rightarrow> conn_env \<Rightarrow> form \<Rightarrow> app_state \<Rightarrow> response \<times> app_state" where
  "delete_batch_c sc ce f st =
     (let pids = form_getlist f ''post_ids''
      in if pids = [] then (Redirect Index, flash SelectToDelete st)
         else (case get_db_connection ce 0 of
                 Inl ex \<Rightarrow> (Redirect Index, flash (DeleteFailed ex) st)
               | Inr _ \<Rightarrow> delete_batch sc f st))"

definition fms_dashboard_c :: "conn_env \<Rightarrow> app_state \<Rightarrow> response \<times> app_state" where
  "fms_dashboard_c ce st = connected ce 0 fms_dashboard st"

fun handle_c :: "schema \<Rightarrow> env \<Rightarrow> conn_env \<Rightarrow> request \<Rightarrow> app_state \<Rightarrow> response \<times> app_state" where
  "handle_c sc e ce GetIndex st = index_c ce st"
| "handle_c sc e ce GetCreate st = create_form st"
| "handle_c sc e ce (PostCreate f) st = create_post_c e ce f st"
| "handle_c sc e ce (GetPost i) st = view_post_c e ce i st"
| "handle_c sc e ce (GetEdit i) st = edit_form_c ce i st"
| "handle_c sc e ce (PostEdit i f) st = edit_post_c e ce i f st"
| "handle_c sc e ce (PostDelete i) st = delete_post_c sc ce i st"
| "handle_c sc e ce (PostComment i f) st = add_comment_c sc e ce i f st"
| "handle_c sc e ce (PostLike i) st = like_post_c sc e ce i st"
| "handle_c sc e ce (PostDeleteBatch f) st = delete_batch_c sc ce f st"
| "handle_c sc e ce GetFms st = fms_dashboard_c ce st"

fun serve_c :: "schema \<Rightarrow> (env \<times> conn_env \<times> request) list \<Rightarrow> app_state \<Rightarrow> app_state" where
  "serve_c sc [] st = st"
| "serve_c sc ((e, ce, r) # rs) st = serve_c sc rs (snd (handle_c sc e ce r st))"

text \<open>The database of the running application: every connection is accepted.\<close>

definition db_up :: "conn_env \<Rightarrow> bool" where
  "db_up ce = (accepts ce (make_dsn (db_params (environ ce))) 0
               \<and> accepts ce (make_dsn (db_params (environ ce))) 1)"

text \<open>Whether the handler of a request gets as far as opening a connection: all do
  but the form page and the early returns on a failed form check.\<close>

fun needs_db :: "request \<Rightarrow> bool" where
  "needs_db GetCreate = False"
| "needs_db (PostCreate f) =
     (\<not> (py_falsy (form_get f ''title'') \<or> py_falsy (form_get f ''author'') \<or> py_falsy (form_get f ''content'')))"
| "needs_db (PostEdit i f) = (\<not> (py_falsy (form_get f ''title'') \<or> py_falsy (form_get f ''content'')))"
| "needs_db (PostComment i f) = (\<not> (py_falsy (form_get f ''author'') \<or> py_falsy (form_get f ''content'')))"
| "needs_db (PostDeleteBatch f) = (form_getlist f ''post_ids'' \<noteq> [])"
| "needs_db _ = True"

text \<open>Connection environments for the witnesses: a server that refuses every
  connection, one that accepts every connection, and one that accepts only the
  first connection of a request.\<close>

definition demo_refused :: conn_env where
  "demo_refused = \<lparr>environ = Map.empty, accepts = (\<lambda>dsn k. False)\<rparr>"

definition demo_up :: conn_env where
  "demo_up = \<lparr>environ = Map.empty, accepts = (\<lambda>dsn k. True)\<rparr>"

definition demo_second_refused :: conn_env where
  "demo_second_refused = \<lparr>environ = Map.empty, accepts = (\<lambda>dsn k. k = 0)\<rparr>"

subsection \<open>With the database up, the handlers are those of theory Handlers\<close>

lemma connected_up: "accepts ce (make_dsn (db_params (environ ce))) k \<Longrightarrow> connected ce k body st = body st"
  by (simp add: connected_def get_db_connection_def)

lemma handle_c_db_up: "db_up ce \<Longrightarrow> handle_c sc e ce r st = handle sc e r st"
  by (cases r) (simp_all add: db_up_def connected_up index_c_def create_post_c_def view_post_c_def
      view_post_def edit_form_c_def edit_post_c_def delete_post_c_def add_comment_c_def like_post_c_def
      delete_batch_c_def fms_dashboard_c_def get_db_connection_def create_post_def edit_post_def
      add_comment_def delete_batch_def Let_def split: option.split)

lemma connected_refused:
  "\<not> accepts ce (make_dsn (db_params (environ ce))) k \<Longrightarrow>
   connected ce k body st = (InternalServerError OperationalError, st)"
  by (simp add: connected_def get_db_connection_def)

lemma serve_c_db_up:
  "list_all (\<lambda>(e, ce, r). db_up ce) rs \<Longrightarrow> serve_c sc rs st = serve sc (map (\<lambda>(e, ce, r). (e, r)) rs) st"
  by (induction rs arbitrary: st) (auto simp: handle_c_db_up)

subsection \<open>Refused connections\<close>

text \<open>
  C13. A refused first connection (spec, sections 4.1 and 7): every handler that
  gets as far as \<^verbatim>\<open>get_db_connection\<close> lets the \<^verbatim>\<open>OperationalError\<close> escape
  as a 500 response with the store and the session untouched, except the batch
  delete, whose \<^verbatim>\<open>try\<close> encloses the connection: it flashes the error and
  redirects to the list.
\<close>

theorem refused_connection:
  assumes "\<not> accepts ce (make_dsn (db_params (environ ce))) 0" and "needs_db r"
  shows "handle_c sc e ce r st =
           (case r of
              PostDeleteBatch f \<Rightarrow> (Redirect Index, flash (DeleteFailed OperationalError) st)
            | _ \<Rightarrow> (InternalServerError OperationalError, st))"
  using assms
  by (cases r) (simp_all add: connected_refused index_c_def create_post_c_def view_post_c_def
      edit_form_c_def edit_post_c_def delete_post_c_def add_comment_c_def like_post_c_def
      delete_batch_c_def fms_dashboard_c_def get_db_connection_def Let_def)

theorem refused_connection_witness:
  "\<not> accepts demo_refused (make_dsn (db_params (environ demo_refused))) 0 \<and> needs_db (PostLike 1)
   \<and> handle_c demo_cascade demo_env demo_refused (PostLike 1) demo_state
       = (InternalServerError OperationalError, demo_state)
   \<and> handle_c demo_cascade demo_env demo_refused (PostDeleteBatch [(''post_ids'', ''1'')]) demo_state
       = (Redirect Index, flash (DeleteFailed OperationalError) demo_state)"
proof -
  have r: "\<not> accepts demo_refused (make_dsn (db_params (environ demo_refused))) 0"
    by (simp add: demo_refused_def)
  have "needs_db (PostLike 1)" "needs_db (PostDeleteBatch [(''post_ids'', ''1'')])"
    by (simp_all add: form_getlist_def)
  with refused_connection [OF r, of "PostLike 1" demo_cascade demo_env demo_state]
       refused_connection [OF r, of "PostDeleteBatch [(''post_ids'', ''1'')]" demo_cascade demo_env demo_state] r
  show ?thesis by simp
qed

text \<open>
  C17. The two connections of \<^verbatim>\<open>view_post\<close> (spec, section 4.4): when the
  first is accepted and the second refused, the view of an existing post has
  already been counted and committed, yet the client gets a 500 response and
  no page, and its flash messages stay queued.
\<close>

theorem view_post_second_connection_refused:
  assumes "accepts ce (make_dsn (db_params (environ ce))) 0"
    and "\<not> accepts ce (make_dsn (db_params (environ ce))) 1"
    and "select_post i (db st) = Some p"
  shows "view_post_c e ce i st = (InternalServerError OperationalError, st\<lparr>db := incr_view_count i (db st)\<rparr>)"
  using assms by (simp add: view_post_c_def connected_up connected_refused select_post_incr_view_count)

theorem view_post_second_connection_refused_witness:
  "accepts demo_second_refused (make_dsn (db_params (environ demo_second_refused))) 0
   \<and> \<not> accepts demo_second_refused (make_dsn (db_params (environ demo_second_refused))) 1
   \<and> select_post 1 (db demo_state) = Some demo_post
   \<and> view_post_c demo_env demo_second_refused 1 demo_state
       = (InternalServerError OperationalError, demo_state\<lparr>db := incr_view_count 1 (db demo_state)\<rparr>)"
proof -
  have h: "accepts demo_second_refused (make_dsn (db_params (environ demo_second_refused))) 0"
    "\<not> accepts demo_second_refused (make_dsn (db_params (environ demo_second_refused))) 1"
    "select_post 1 (db demo_state) = Some demo_post"
    by (simp_all add: demo_second_refused_def demo_defs select_post_def)
  from view_post_second_connection_refused [OF h, of demo_env] h show ?thesis by simp
qed

lemma dsn_missing_config: "make_dsn (db_params Map.empty) = []"
  by (simp add: make_dsn_def db_params_def map_filter_simps)

lemma open_save_session: "open_session k (Some (save_session k st)) = flashes st"
  by (simp add: open_session_def save_session_def)

lemma open_session_new_key: "k' \<noteq> k \<Longrightarrow> open_session k' (Some (save_session k st)) = []"
  by (simp add: open_session_def save_session_def)

subsection \<open>What a refused connection can do\<close>

text \<open>The four outcomes of a request on the running server: the handler's own, a
  500 before any statement, a 500 after \<^verbatim>\<open>view_post\<close>'s first connection has
  counted the view (which is all the store effect the handler has), and the caught
  error of the batch delete.\<close>

lemma handle_c_cases:
  "handle_c sc e ce r st = handle sc e r st
   \<or> handle_c sc e ce r st = (InternalServerError OperationalError, st)
   \<or> handle_c sc e ce r st = (InternalServerError OperationalError, st\<lparr>db := db (snd (handle sc e r st))\<rparr>)
   \<or> handle_c sc e ce r st = (Redirect Index, flash (DeleteFailed OperationalError) st)"
proof (cases "accepts ce (make_dsn (db_params (environ ce))) 0")
  case False
  then show ?thesis
    by (cases r) (simp_all add: connected_refused index_c_def create_post_c_def view_post_c_def
        edit_form_c_def edit_post_c_def delete_post_c_def add_comment_c_def like_post_c_def
        delete_batch_c_def fms_dashboard_c_def get_db_connection_def create_post_def edit_post_def
        add_comment_def delete_batch_def Let_def)
next
  case acc0: True
  show ?thesis
  proof (cases "accepts ce (make_dsn (db_params (environ ce))) 1")
    case True
    with acc0 have "db_up ce" by (simp add: db_up_def)
    then show ?thesis by (simp add: handle_c_db_up)
  next
    case False
    then show ?thesis
      using acc0
      by (cases r) (simp_all add: connected_up connected_refused index_c_def create_post_c_def
          view_post_c_def view_post_def edit_form_c_def edit_post_c_def delete_post_c_def
          add_comment_c_def like_post_c_def delete_batch_c_def fms_dashboard_c_def
          get_db_connection_def create_post_def edit_post_def add_comment_def delete_batch_def
          Let_def split: option.split)
  qed
qed

lemma handle_c_board_inv:
  "fk sc \<noteq> NoForeignKey \<Longrightarrow> board_inv (db st) \<Longrightarrow> board_inv (db (snd (handle_c sc e ce r st)))"
  using handle_c_cases [of sc e ce r st] handle_board_inv [of sc st e r] by auto

end
