(* ===== verification/Traces.thy ===== *)
theory Traces
  imports Connection "HOL-Library.Sublist"
begin

text \<open>
  Properties of request sequences: what the server keeps or promises from one
  request to the next when \<open>serve\<close> handles them in order. The view counter of a
  post never decreases (spec, section 3), comments are only ever appended while
  the schema does not cascade deletes, each request either consumes the flash
  queue into the page it renders or adds one message to it, and chains of
  redirects such as an edit of a missing post followed by its view. The first
  three are proved for \<open>serve\<close> and then lifted to the running server
  \<open>serve_c\<close> of theory \<open>Connection\<close>, where any connection may be refused.
\<close>

text \<open>\<open>views_monotone ps ps'\<close>: every post of \<open>ps'\<close> has a view count at least
  that of every post of \<open>ps\<close> with its id.\<close>

definition views_monotone :: "post_row list \<Rightarrow> post_row list \<Rightarrow> bool" where
  "views_monotone ps ps' =
     list_all (\<lambda>p'. list_all (\<lambda>p. p_id p = p_id p' \<longrightarrow> view_count p \<le> view_count p') ps) ps'"

text \<open>\<open>views_step s s'\<close>: what one request does to the posts table as far as
  view counts go: the sequence never goes back, and every post of \<open>s'\<close> either
  carries an id the sequence had not issued in \<open>s\<close> or has a row of \<open>s\<close> with
  its id and at most its view count.\<close>

definition views_step :: "store \<Rightarrow> store \<Rightarrow> bool" where
  "views_step s s' =
     (post_seq s \<le> post_seq s'
      \<and> list_all (\<lambda>p'. post_seq s < p_id p'
                      \<or> list_ex (\<lambda>q. p_id q = p_id p' \<and> view_count q \<le> view_count p') (posts s))
                 (posts s'))"

text \<open>What a response does to the client's flash queue: a rendered page carries the
  queued messages and empties the queue, a redirect adds exactly one message, an
  uncaught exception leaves the queue alone.\<close>

definition flash_effect :: "flash_msg list \<Rightarrow> response \<times> app_state \<Rightarrow> bool" where
  "flash_effect q res =
     (case res of
        (Render pg msgs, st') \<Rightarrow> msgs = q \<and> flashes st' = []
      | (Redirect ep, st') \<Rightarrow> butlast (flashes st') = q \<and> flashes st' \<noteq> []
      | (InternalServerError x, st') \<Rightarrow> flashes st' = q)"

subsection \<open>One request and the view counters\<close>

lemma views_step_refl: "views_step s s"
  by (auto simp: views_step_def list_all_iff list_ex_iff)

lemma views_step_posts_same: "posts s' = posts s \<Longrightarrow> post_seq s' = post_seq s \<Longrightarrow> views_step s s'"
  by (auto simp: views_step_def list_all_iff list_ex_iff)

lemma views_step_update_where:
  assumes "\<And>x. p_id (f x) = p_id x \<and> view_count x \<le> view_count (f x)"
    and "posts s' = update_where P f (posts s)" "post_seq s' = post_seq s"
  shows "views_step s s'"
  using assms by (force simp: views_step_def list_all_iff list_ex_iff set_update_where)

lemma views_step_filter:
  "posts s' = filter Q (posts s) \<Longrightarrow> post_seq s' = post_seq s \<Longrightarrow> views_step s s'"
  by (auto simp: views_step_def list_all_iff list_ex_iff)

lemma views_step_insert_post: "views_step s (snd (insert_post now t a c s))"
  by (auto simp: views_step_def insert_post_def Let_def list_all_iff list_ex_iff)

lemma views_step_delete_posts_where: "views_step s (snd (delete_posts_where sc P s))"
  by (cases "fk sc")
     (auto simp: delete_posts_where_def Let_def views_step_refl intro: views_step_filter)

lemma views_step_add_like_count:
  "posts s1 = posts s \<Longrightarrow> post_seq s1 = post_seq s \<Longrightarrow> views_step s (add_like_count i d s1)"
  by (rule views_step_update_where [where f = "\<lambda>p. p\<lparr>like_count := like_count p + d\<rparr>"])
     (simp_all add: add_like_count_def)

lemma insert_like_posts:
  "posts (snd (insert_like sc i ip s)) = posts s \<and> post_seq (snd (insert_like sc i ip s)) = post_seq s"
  by (simp add: insert_like_def)

lemma insert_comment_posts:
  "posts (snd (insert_comment now sc i a c s)) = posts s \<and> post_seq (snd (insert_comment now sc i a c s)) = post_seq s"
  by (simp add: insert_comment_def Let_def)

lemma views_step_create_post: "views_step (db st) (db (snd (create_post e f st)))"
  by (simp add: create_post_def Let_def split_def views_step_refl views_step_insert_post)

lemma views_step_view_post: "views_step (db st) (db (snd (view_post e i st)))"
proof -
  have "views_step (db st) (incr_view_count i (db st))"
    by (rule views_step_update_where [where f = "\<lambda>p. p\<lparr>view_count := view_count p + 1\<rparr>"])
       (simp_all add: incr_view_count_def)
  then show ?thesis by (simp add: view_post_def Let_def split: option.split)
qed

lemma views_step_edit_post: "views_step (db st) (db (snd (edit_post e i f st)))"
proof -
  have "views_step (db st) (update_post (clock e) t c i (db st))" for t c
    by (rule views_step_update_where [where f = "\<lambda>p. p\<lparr>title := t, content := c, updated_at := Some (clock e)\<rparr>"])
       (simp_all add: update_post_def)
  then show ?thesis by (simp add: edit_post_def Let_def views_step_refl)
qed

lemma views_step_add_comment: "views_step (db st) (db (snd (add_comment sc e i f st)))"
proof (cases "insert_comment (clock e) sc i (the (form_get f ''author'')) (the (form_get f ''content'')) (db st)")
  case (Pair r s')
  with insert_comment_posts [of "clock e" sc i "the (form_get f ''author'')"
      "the (form_get f ''content'')" "db st"]
  have "views_step (db st) s'" by (auto intro: views_step_posts_same)
  with Pair show ?thesis
    by (cases r) (simp_all add: add_comment_def Let_def views_step_refl)
qed

lemma views_step_like_post: "views_step (db st) (db (snd (like_post sc e i st)))"
  using insert_like_posts [of sc i "remote_addr e" "db st"]
  by (auto simp: like_post_def Let_def delete_likes_def views_step_add_like_count
      split: prod.split option.split intro: views_step_posts_same)

lemma views_step_delete_batch_try:
  "views_step s (case delete_batch_try sc pids s of Inl (_, s') \<Rightarrow> s' | Inr (_, s') \<Rightarrow> s')"
proof (cases "parse_ids pids")
  case (Inl bad)
  then show ?thesis by (simp add: delete_batch_try_def views_step_refl)
next
  case (Inr ids)
  show ?thesis
  proof (cases "delete_any_stmt sc ids s")
    case (Pair r s')
    then have "views_step s s'"
      using views_step_delete_posts_where [of s sc "\<lambda>k. k \<in> set ids"]
      by (simp add: delete_any_stmt_def)
    with Inr Pair show ?thesis
      by (cases r) (simp_all add: delete_batch_try_def)
  qed
qed

lemma views_step_delete_batch: "views_step (db st) (db (snd (delete_batch sc f st)))"
  using views_step_delete_batch_try [of "db st" sc "form_getlist f ''post_ids''"]
  by (auto simp: delete_batch_def Let_def views_step_refl split: sum.split prod.split)

lemma handle_views_step: "views_step (db st) (db (snd (handle sc e r st)))"
  by (cases r) (simp_all add: index_def create_form_def edit_form_def fms_dashboard_def
      views_step_refl views_step_create_post views_step_view_post views_step_edit_post
      db_delete_post delete_post_stmt_def views_step_delete_posts_where views_step_add_comment
      views_step_like_post views_step_delete_batch split: option.split)

subsection \<open>Request sequences and the view counters\<close>

lemma views_monotone_refl: "distinct (map p_id ps) \<Longrightarrow> views_monotone ps ps"
  by (auto simp: views_monotone_def list_all_iff distinct_map dest: inj_onD)

lemma views_monotone_step:
  assumes ids: "list_all (\<lambda>p. p_id p \<le> post_seq s0) (posts s0)"
    and seq: "post_seq s0 \<le> post_seq s1" and mono: "views_monotone (posts s0) (posts s1)"
    and step: "views_step s1 s2"
  shows "post_seq s0 \<le> post_seq s2 \<and> views_monotone (posts s0) (posts s2)"
proof
  from seq step show "post_seq s0 \<le> post_seq s2" by (simp add: views_step_def)
  show "views_monotone (posts s0) (posts s2)"
    unfolding views_monotone_def list_all_iff
  proof (intro ballI impI)
    fix p' p
    assume p': "p' \<in> set (posts s2)" and p: "p \<in> set (posts s0)" and eq: "p_id p = p_id p'"
    from step p' have "post_seq s1 < p_id p'
        \<or> (\<exists>q \<in> set (posts s1). p_id q = p_id p' \<and> view_count q \<le> view_count p')"
      by (simp add: views_step_def list_all_iff list_ex_iff)
    moreover from ids p eq seq have "\<not> post_seq s1 < p_id p'"
      by (auto simp: list_all_iff)
    ultimately obtain q where q: "q \<in> set (posts s1)" "p_id q = p_id p'" "view_count q \<le> view_count p'"
      by blast
    with mono p eq have "view_count p \<le> view_count q"
      by (auto simp: views_monotone_def list_all_iff)
    with q show "view_count p \<le> view_count p'" by simp
  qed
qed

lemma serve_views_monotone:
  assumes "list_all (\<lambda>p. p_id p \<le> post_seq s0) (posts s0)"
  shows "post_seq s0 \<le> post_seq (db st) \<Longrightarrow> views_monotone (posts s0) (posts (db st)) \<Longrightarrow>
    post_seq s0 \<le> post_seq (db (serve sc rs st)) \<and> views_monotone (posts s0) (posts (db (serve sc rs st)))"
proof (induction rs arbitrary: st)
  case Nil
  then show ?case by simp
next
  case (Cons er rs)
  obtain e r where er: "er = (e, r)" by (cases er)
  from views_monotone_step [OF assms Cons.prems handle_views_step]
  have "post_seq s0 \<le> post_seq (db (snd (handle sc e r st)))
      \<and> views_monotone (posts s0) (posts (db (snd (handle sc e r st))))" .
  with Cons.IH er show ?case by simp
qed

lemma serve_view_counts_monotone:
  "board_inv (db st) \<Longrightarrow> views_monotone (posts (db st)) (posts (db (serve sc rs st)))"
proof -
  assume inv: "board_inv (db st)"
  then have ids: "list_all (\<lambda>p. p_id p \<le> post_seq (db st)) (posts (db st))"
    and dist: "distinct (map p_id (posts (db st)))"
    by (auto simp: board_inv_def list_all_iff)
  from serve_views_monotone [OF ids order_refl views_monotone_refl [OF dist]]
  show ?thesis by simp
qed

lemma serve_view_counts_monotone_example:
  "board_inv (db demo_state)
   \<and> views_monotone (posts (db demo_state))
       (posts (db (serve demo_cascade [(demo_env, GetPost 1), (demo_env, PostDelete 1),
                                       (demo_env, PostCreate demo_form)] demo_state)))"
proof -
  have inv: "board_inv (db demo_state)"
    by (simp add: demo_defs board_inv_def likes_of_def)
  from serve_view_counts_monotone [OF inv, of demo_cascade
      "[(demo_env, GetPost 1), (demo_env, PostDelete 1), (demo_env, PostCreate demo_form)]"]
  show ?thesis using inv by simp
qed

subsection \<open>Comments are only appended\<close>

lemma comments_delete_posts_where:
  "fk sc \<noteq> FkCascade \<Longrightarrow> comments (snd (delete_posts_where sc P s)) = comments s"
  by (cases "fk sc") (simp_all add: delete_posts_where_def Let_def)

lemma comments_insert_comment:
  "prefix (comments s) (comments (snd (insert_comment now sc i a c s)))"
  by (simp add: insert_comment_def Let_def)

lemma comments_delete_batch_try:
  assumes "fk sc \<noteq> FkCascade"
  shows "comments (case delete_batch_try sc pids s of Inl (_, s') \<Rightarrow> s' | Inr (_, s') \<Rightarrow> s') = comments s"
proof (cases "parse_ids pids")
  case (Inl bad)
  then show ?thesis by (simp add: delete_batch_try_def)
next
  case (Inr ids)
  show ?thesis
  proof (cases "delete_any_stmt sc ids s")
    case (Pair r s')
    then have "comments s' = comments s"
      using comments_delete_posts_where [OF assms, of "\<lambda>k. k \<in> set ids" s]
      by (simp add: delete_any_stmt_def)
    with Inr Pair show ?thesis by (cases r) (simp_all add: delete_batch_try_def)
  qed
qed

lemma handle_comments_prefix:
  assumes "fk sc \<noteq> FkCascade"
  shows "prefix (comments (db st)) (comments (db (snd (handle sc e r st))))"
proof (cases r)
  case (PostComment i f)
  obtain res s' where ins: "insert_comment (clock e) sc i (the (form_get f ''author''))
      (the (form_get f ''content'')) (db st) = (res, s')" by (cases "insert_comment (clock e) sc i
      (the (form_get f ''author'')) (the (form_get f ''content'')) (db st)")
  with comments_insert_comment [of "db st" "clock e" sc i] have "prefix (comments (db st)) (comments s')"
    by (metis snd_conv)
  with PostComment ins show ?thesis by (cases res) (simp_all add: add_comment_def Let_def)
next
  case (PostDeleteBatch f)
  with comments_delete_batch_try [OF assms, of "form_getlist f ''post_ids''" "db st"] show ?thesis
    by (auto simp: delete_batch_def Let_def split: sum.split prod.split)
next
  case (PostLike i)
  then show ?thesis
    by (auto simp: like_post_def Let_def delete_likes_def add_like_count_def insert_like_def
        server_error_def split: prod.split option.split if_splits)
qed (simp_all add: index_def create_form_def create_post_def view_post_def edit_form_def
     edit_post_def incr_view_count_def update_post_def insert_post_def db_delete_post
     delete_post_stmt_def comments_delete_posts_where [OF assms] fms_dashboard_def Let_def split_def
     split: option.split)

lemma serve_comments_append_only:
  "fk sc \<noteq> FkCascade \<Longrightarrow> prefix (comments (db st)) (comments (db (serve sc rs st)))"
proof (induction rs arbitrary: st)
  case Nil
  then show ?case by simp
next
  case (Cons er rs)
  obtain e r where er: "er = (e, r)" by (cases er)
  from handle_comments_prefix [OF Cons.prems, of st e r] Cons.IH [OF Cons.prems, of "snd (handle sc e r st)"]
  show ?case by (simp add: er)
qed

lemma serve_comments_append_only_example:
  "fk \<lparr>fk = FkNoAction, likes_unique = True\<rparr> \<noteq> FkCascade
   \<and> prefix (comments (db demo_state))
       (comments (db (serve \<lparr>fk = FkNoAction, likes_unique = True\<rparr>
          [(demo_env, PostComment 1 demo_form), (demo_env, PostDelete 1)] demo_state)))"
proof -
  have "fk \<lparr>fk = FkNoAction, likes_unique = True\<rparr> \<noteq> FkCascade" by simp
  from serve_comments_append_only [OF this, of demo_state
      "[(demo_env, PostComment 1 demo_form), (demo_env, PostDelete 1)]"]
  show ?thesis by simp
qed

subsection \<open>The flash queue\<close>

lemma flash_effect_render [simp]: "flash_effect q (render pg st) \<longleftrightarrow> flashes st = q"
  by (simp add: flash_effect_def render_def get_flashed_messages_def)

lemma flash_effect_redirect [simp]: "flash_effect q (Redirect ep, flash m st') \<longleftrightarrow> flashes st' = q"
  by (simp add: flash_effect_def)

lemma flash_effect_server_error [simp]: "flash_effect q (server_error err s st) \<longleftrightarrow> flashes st = q"
  by (simp add: flash_effect_def server_error_def)

lemma handle_flash_discipline: "flash_effect (flashes st) (handle sc e r st)"
  by (cases r) (auto simp: index_def create_form_def create_post_def view_post_def edit_form_def
      edit_post_def delete_post_def add_comment_def like_post_def delete_batch_def fms_dashboard_def
      Let_def split_def split: option.split prod.split sum.split)

subsection \<open>Repeated views and chains of redirects\<close>

lemma db_view_post [simp]: "db (snd (view_post e i st)) = incr_view_count i (db st)"
  by (simp add: view_post_def Let_def split: option.split)

lemma select_post_None_iff: "select_post i s = None \<longleftrightarrow> \<not> post_exists i s"
  by (auto simp: select_post_def post_exists_def find_None_iff list_ex_iff)

text \<open>
  C32. Views accumulate (spec, section 8): \<open>n\<close> successive requests
  \<^verbatim>\<open>GET /post/i\<close> for an existing post, from any clients, raise its
  \<^verbatim>\<open>view_count\<close> by exactly \<open>n\<close> and change nothing else of the row.
\<close>

theorem serve_repeated_views:
  "select_post i (db st) = Some p \<Longrightarrow>
   select_post i (db (serve sc (map (\<lambda>e. (e, GetPost i)) es) st))
     = Some (p\<lparr>view_count := view_count p + int (length es)\<rparr>)"
proof (induction es arbitrary: st p)
  case Nil
  then show ?case by simp
next
  case (Cons e es)
  have "select_post i (db (snd (view_post e i st))) = Some (p\<lparr>view_count := view_count p + 1\<rparr>)"
    using Cons.prems by (simp add: select_post_incr_view_count)
  from Cons.IH [OF this] show ?case by simp
qed

theorem serve_repeated_views_witness:
  "select_post 1 (db demo_state) = Some demo_post
   \<and> select_post 1 (db (serve demo_cascade (map (\<lambda>e. (e, GetPost 1)) [demo_env, demo_env, demo_env]) demo_state))
       = Some (demo_post\<lparr>view_count := 3\<rparr>)"
proof -
  have h: "select_post 1 (db demo_state) = Some demo_post"
    by (simp add: demo_defs select_post_def)
  from serve_repeated_views [OF h, of demo_cascade "[demo_env, demo_env, demo_env]"]
  show ?thesis using h by (simp add: demo_post_def)
qed

lemma update_post_absent: "\<not> post_exists i s \<Longrightarrow> update_post now t c i s = s"
  by (simp add: update_post_def post_exists_iff update_where_none)

text \<open>
  C33. Editing a post that does not exist (spec, section 4.5): the update matches
  no row and the handler still reports success and redirects to the post; the
  client following the redirects is sent on by the view to the list, where the
  page shows the success message and then the not-found message, and the store
  is exactly as it was.
\<close>

theorem edit_missing_then_view:
  assumes "\<not> post_exists i (db st)" and "form_get f ''title'' = Some t"
    and "form_get f ''content'' = Some c" and "t \<noteq> []" and "c \<noteq> []"
  shows "let (r1, st1) = handle sc e (PostEdit i f) st;
             (r2, st2) = handle sc e (GetPost i) st1;
             (r3, st3) = handle sc e GetIndex st2
         in r1 = Redirect (ViewPost i) \<and> r2 = Redirect Index
          \<and> r3 = Render (IndexPage (select_index (db st))) (flashes st @ [PostUpdated, PostNotFound])
          \<and> db st3 = db st \<and> flashes st3 = []"
proof -
  have upd: "update_post (clock e) t c i (db st) = db st"
    using assms(1) by (rule update_post_absent)
  have sel: "select_post i (db st) = None"
    using assms(1) by (simp add: select_post_None_iff)
  then have incr: "incr_view_count i (db st) = db st" by (rule incr_view_count_absent)
  show ?thesis
    using assms upd sel incr
    by (simp add: edit_post_def view_post_def index_def render_def get_flashed_messages_def Let_def)
qed

theorem edit_missing_then_view_witness:
  "\<not> post_exists 9 (db demo_state) \<and> form_get demo_form ''title'' = Some ''A''
   \<and> form_get demo_form ''content'' = Some ''C'' \<and> ''A'' \<noteq> [] \<and> ''C'' \<noteq> []
   \<and> (let (r1, st1) = handle demo_cascade demo_env (PostEdit 9 demo_form) demo_state;
          (r2, st2) = handle demo_cascade demo_env (GetPost 9) st1;
          (r3, st3) = handle demo_cascade demo_env GetIndex st2
      in r1 = Redirect (ViewPost 9) \<and> r2 = Redirect Index
       \<and> r3 = Render (IndexPage (select_index (db demo_state))) (flashes demo_state @ [PostUpdated, PostNotFound])
       \<and> db st3 = db demo_state \<and> flashes st3 = [])"
proof -
  have h: "\<not> post_exists 9 (db demo_state)" "form_get demo_form ''title'' = Some ''A''"
    "form_get demo_form ''content'' = Some ''C''"
    by (simp_all add: demo_defs post_exists_def)
  from edit_missing_then_view [OF h, of demo_cascade demo_env] h show ?thesis by simp
qed

lemma delete_posts_where_absent:
  assumes "\<And>k. P k \<Longrightarrow> \<not> post_exists k s"
  shows "delete_posts_where sc P s = (None, s)"
proof -
  have "filter (\<lambda>p. \<not> P (p_id p)) (posts s) = posts s"
    using assms by (auto simp: filter_id_conv post_exists_iff)
  with assms show ?thesis
    by (cases "fk sc") (simp_all add: delete_posts_where_def Let_def list_ex_iff filter_id_conv)
qed

text \<open>
  C34. Deleting a post id that does not exist (spec, section 4.6) is not an error
  under any schema: the DELETE matches no row, the store is unchanged, and the
  handler flashes its success message and redirects to the list all the same.
\<close>

theorem delete_post_absent:
  "\<not> post_exists i (db st) \<Longrightarrow> delete_post sc i st = (Redirect Index, flash PostDeleted st)"
proof -
  assume "\<not> post_exists i (db st)"
  then have "delete_posts_where sc (\<lambda>k. k = i) (db st) = (None, db st)"
    by (intro delete_posts_where_absent) simp
  then show ?thesis by (simp add: delete_post_def delete_post_stmt_def)
qed

theorem delete_post_absent_witness:
  "\<not> post_exists 9 (db demo_state)
   \<and> delete_post demo_cascade 9 demo_state = (Redirect Index, flash PostDeleted demo_state)"
proof -
  have h: "\<not> post_exists 9 (db demo_state)" by (simp add: demo_defs post_exists_def)
  from delete_post_absent [OF h] h show ?thesis by simp
qed

subsection \<open>The running server: requests with their connections\<close>

text \<open>The properties above, lifted to \<open>handle_c\<close> and \<open>serve_c\<close>, where any
  connection of any request may be refused: by \<open>handle_c_cases\<close> a request
  either behaves as its handler, or leaves the store as it was, or (the view
  whose second connection fails) leaves it as the handler does.\<close>

lemma handle_c_views_step: "views_step (db st) (db (snd (handle_c sc e ce r st)))"
  using handle_c_cases [of sc e ce r st] by (auto simp: views_step_refl handle_views_step)

lemma serve_c_views_monotone:
  assumes "list_all (\<lambda>p. p_id p \<le> post_seq s0) (posts s0)"
  shows "post_seq s0 \<le> post_seq (db st) \<Longrightarrow> views_monotone (posts s0) (posts (db st)) \<Longrightarrow>
    post_seq s0 \<le> post_seq (db (serve_c sc rs st)) \<and> views_monotone (posts s0) (posts (db (serve_c sc rs st)))"
proof (induction rs arbitrary: st)
  case Nil
  then show ?case by simp
next
  case (Cons x rs)
  obtain e ce r where x: "x = (e, ce, r)" by (cases x) auto
  from views_monotone_step [OF assms Cons.prems handle_c_views_step]
  have "post_seq s0 \<le> post_seq (db (snd (handle_c sc e ce r st)))
      \<and> views_monotone (posts s0) (posts (db (snd (handle_c sc e ce r st))))" .
  with Cons.IH x show ?case by simp
qed

text \<open>
  C29. The view counter of a post never decreases (spec, section 3): from a board
  whose store invariant holds, after any sequence of requests handled one after
  the other, under any schema and whatever the database answers to each
  connection, every post still present has a \<^verbatim>\<open>view_count\<close> at least the one
  it had, since no handler lowers it and an id the sequence has issued is never
  issued again.
\<close>

theorem serve_c_view_counts_monotone:
  "board_inv (db st) \<Longrightarrow> views_monotone (posts (db st)) (posts (db (serve_c sc rs st)))"
proof -
  assume inv: "board_inv (db st)"
  then have ids: "list_all (\<lambda>p. p_id p \<le> post_seq (db st)) (posts (db st))"
    and dist: "distinct (map p_id (posts (db st)))"
    by (auto simp: board_inv_def list_all_iff)
  from serve_c_views_monotone [OF ids order_refl views_monotone_refl [OF dist]]
  show ?thesis by simp
qed

theorem serve_c_view_counts_monotone_witness:
  "board_inv (db demo_state)
   \<and> views_monotone (posts (db demo_state))
       (posts (db (serve_c demo_cascade [(demo_env, demo_second_refused, GetPost 1),
                                         (demo_env, demo_refused, PostDelete 1),
                                         (demo_env, demo_second_refused, PostCreate demo_form)] demo_state)))"
proof -
  have inv: "board_inv (db demo_state)"
    by (simp add: demo_defs board_inv_def likes_of_def)
  from serve_c_view_counts_monotone [OF inv, of demo_cascade
      "[(demo_env, demo_second_refused, GetPost 1), (demo_env, demo_refused, PostDelete 1),
        (demo_env, demo_second_refused, PostCreate demo_form)]"]
  show ?thesis using inv by simp
qed

lemma handle_c_comments_prefix:
  "fk sc \<noteq> FkCascade \<Longrightarrow> prefix (comments (db st)) (comments (db (snd (handle_c sc e ce r st))))"
  using handle_c_cases [of sc e ce r st] handle_comments_prefix [of sc st e r] by auto

text \<open>
  C30. Comments are never edited or deleted by the handlers (spec, section 3):
  unless the schema cascades the deletion of a post to its comments, the comments
  table after any sequence of requests handled one after the other extends the one
  before it, row for row, whatever the database answers to each connection.
\<close>

theorem serve_c_comments_append_only:
  "fk sc \<noteq> FkCascade \<Longrightarrow> prefix (comments (db st)) (comments (db (serve_c sc rs st)))"
proof (induction rs arbitrary: st)
  case Nil
  then show ?case by simp
next
  case (Cons x rs)
  obtain e ce r where x: "x = (e, ce, r)" by (cases x) auto
  from handle_c_comments_prefix [OF Cons.prems, of st e ce r]
       Cons.IH [OF Cons.prems, of "snd (handle_c sc e ce r st)"]
  show ?case by (simp add: x)
qed

theorem serve_c_comments_append_only_witness:
  "fk \<lparr>fk = FkNoAction, likes_unique = True\<rparr> \<noteq> FkCascade
   \<and> prefix (comments (db demo_state))
       (comments (db (serve_c \<lparr>fk = FkNoAction, likes_unique = True\<rparr>
          [(demo_env, demo_second_refused, PostComment 1 demo_form),
           (demo_env, demo_refused, PostDelete 1)] demo_state)))"
proof -
  have "fk \<lparr>fk = FkNoAction, likes_unique = True\<rparr> \<noteq> FkCascade" by simp
  from serve_c_comments_append_only [OF this, of demo_state
      "[(demo_env, demo_second_refused, PostComment 1 demo_form), (demo_env, demo_refused, PostDelete 1)]"]
  show ?thesis by simp
qed

text \<open>
  C31. Flash messages are one-shot (spec, glossary): on the running server, whatever
  the database answers, every request either renders a
  page that shows exactly the messages queued so far and empties the queue, or
  redirects after queuing exactly one message, or fails with an uncaught exception
  leaving the queue as it was.
\<close>

theorem handle_c_flash_discipline: "flash_effect (flashes st) (handle_c sc e ce r st)"
  using handle_c_cases [of sc e ce r st] handle_flash_discipline [of st sc e r]
  by (auto simp: flash_effect_def)

end
