(* ===== verification/Spec2Isabelle.thy ===== *)
theory Spec2Isabelle
  imports Handlers LikeRace Router Traces Connection
begin

text \<open>
  \<^bold>\<open>A verification model of the myboard bulletin board (\<^verbatim>\<open>src/app.py\<close>).\<close>

  \<^emph>\<open>The program.\<close> One Flask module: eleven route handlers, each of which opens
  a PostgreSQL connection in autocommit mode (\<^verbatim>\<open>get_db_connection\<close>), runs one
  to four SQL statements against the tables \<^verbatim>\<open>board.posts\<close>, \<^verbatim>\<open>board.comments\<close>,
  \<^verbatim>\<open>board.likes\<close> and \<^verbatim>\<open>fms.chick_info\<close>, and answers with a rendered page or
  with a redirect that carries a one-shot flash message in the client's session.
  The handlers share no state but the database and the session.

  \<^emph>\<open>The theories.\<close>
  \<^item> \<open>Prelude\<close>: base type names, \<open>update_where\<close> (the semantics of
    \<^verbatim>\<open>UPDATE ... WHERE\<close> on a table held as a list of rows), Python's falsy test on
    a form field, and the list lemmas the components share (collection
    \<open>table_simps\<close>).
  \<^item> \<open>Store\<close>: the rows as records (\<open>post_row\<close>, \<open>comment_row\<close>,
    \<open>like_row\<close>, \<open>chick_row\<close>), the store (tables in storage order plus the two
    serial sequences), the schema parameters the repository does not fix (the
    foreign-key policy of \<^verbatim>\<open>comments.post_id\<close> and \<^verbatim>\<open>likes.post_id\<close>, and
    whether \<^verbatim>\<open>likes\<close> has the key \<^verbatim>\<open>(post_id, user_ip)\<close>), one definition per
    SQL statement of the handlers (\<open>insert_post\<close>, \<open>incr_view_count\<close>,
    \<open>select_post\<close>, \<open>select_comments\<close>, \<open>count_likes\<close>, \<open>update_post\<close>,
    \<open>delete_posts_where\<close>, \<open>insert_comment\<close>, \<open>delete_likes\<close>,
    \<open>insert_like\<close>, \<open>add_like_count\<close>, \<open>select_index\<close>), the store invariant
    \<open>board_inv\<close> (distinct sequence-issued post ids, each \<^verbatim>\<open>like_count\<close> equal to
    the number of like rows of its post, no dangling comment or like, no duplicate
    like), and one preservation lemma per statement.
  \<^item> \<open>Session\<close>: flash messages (one constructor per message text of the
    source) and the application state of a client (store and pending flashes).
  \<^item> \<open>Fms\<close>: the three read-only queries of \<^verbatim>\<open>fms_dashboard\<close>.
  \<^item> \<open>PyInt\<close>: Python's \<^verbatim>\<open>int()\<close> on strings, used by \<^verbatim>\<open>delete_batch\<close>.
  \<^item> \<open>Handlers\<close>: one definition per route handler (\<open>index\<close>,
    \<open>create_form\<close>, \<open>create_post\<close>, \<open>view_post\<close>, \<open>edit_form\<close>,
    \<open>edit_post\<close>, \<open>delete_post\<close>, \<open>add_comment\<close>, \<open>like_post\<close>,
    \<open>delete_batch\<close>, \<open>fms_dashboard\<close>), the route table \<open>handle\<close> and the
    sequential server \<open>serve\<close>; the functional, error and roundtrip lemmas of
    the handlers (C3-C9, C11, C12, C14, C15, C16, C18, and C5 for every failed
    form check), and \<open>handle_board_inv\<close>: every handler keeps the store invariant
    when the schema enforces the foreign keys. These handlers run with their
    connection accepted.
  \<^item> \<open>Connection\<close>: the start-up configuration (\<open>load_dotenv\<close>), the
    connection provider \<open>get_db_connection\<close> (the \<^verbatim>\<open>DB_*\<close> variables, the
    connection string psycopg2 builds from them, and the server's answer, a
    parameter of the request's environment), and the handlers with their
    connection points (\<open>index_c\<close> ... \<open>fms_dashboard_c\<close>, \<open>handle_c\<close>,
    \<open>serve_c\<close>), and the session cookie signed with the random secret key
    (\<open>save_session\<close>, \<open>open_session\<close>: a restart with a new key drops the
    pending flashes). Lemmas: with every connection accepted they are the handlers
    above (\<open>handle_c_db_up\<close>, \<open>serve_c_db_up\<close>), so every property of
    \<open>handle\<close> holds of the running server; a refused connection is a 500
    response except in the batch delete (C13); \<^verbatim>\<open>view_post\<close> can fail on its
    second connection after its view is counted (C17).
  \<^item> \<open>LikeRace\<close>: \<^verbatim>\<open>like_post\<close> as three autocommit statements a thread
    runs in turn (\<open>like_thread_step\<close>), the interleaving of threads
    (\<open>race_step\<close>, and \<open>run_schedule\<close> for a concrete schedule), since
    \<^verbatim>\<open>app.run\<close> serves requests on threads. Lemmas: a thread run alone for
    its three statements leaves the store as \<^verbatim>\<open>like_post\<close> does
    (\<open>thread_run_toggle\<close>, which ties the race model to the handler), and two
    interleaved toggles break the invariant that serial requests keep (C25-C27).
  \<^item> \<open>Router\<close>: the URL map of the \<^verbatim>\<open>@app.route\<close> decorators
    (\<open>url_rules\<close>), Werkzeug's matching of a path against it (the
    \<^verbatim>\<open><int:...>\<close> converter, HEAD with GET, Flask's automatic OPTIONS, 405
    with the allowed methods, the strict-slash redirect, 404) in \<open>route\<close>,
    and \<open>url_for\<close>, which builds a path from the rule of its endpoint as Flask
    does. Lemmas: at most one rule matches any request (C28), routed requests
    carry non-negative ids, every path \<open>url_for\<close> builds routes back to its
    endpoint, HEAD is routed as GET (so it counts a view), and
    every response of a routed request is well-formed against the store (C10).
  \<^item> \<open>Traces\<close>: properties of request sequences: view counts never
    decrease (C29), comments are only appended unless deletes cascade (C30), the
    flash queue discipline of every request (C31), all three on the running
    server \<open>serve_c\<close> whatever the database answers (through
    \<open>handle_c_cases\<close>: a request behaves as its handler, or changes no data,
    or fails after the store effect of its handler); repeated views (C32), and
    the error paths of edit and delete on a missing post (C33, C34).
  \<^item> this theory: the states the server reaches handling its requests one at a
    time, with their connections (\<open>reachable_serial\<close>, through
    \<open>handle_c\<close>), the invariant on them (C1), and the counter drift without
    foreign keys (C2).

  \<^emph>\<open>Modelling choices.\<close> Python integers and PostgreSQL counters are \<open>int\<close>
  (no width is fixed by the repository); timestamps are \<open>nat\<close> read from the
  request's clock; strings are byte strings. An uncaught exception is the
  response \<open>InternalServerError\<close>, with the store as the committed statements
  left it. The loops of the source (list comprehension, \<^verbatim>\<open>int()\<close>) are
  structural recursion, so every definition is total and executable. The only
  bound is in \<open>LikeRace\<close>: a thread run alone is given three statements
  (\<open>thread_run sc 3\<close>), which is enough because a toggle has one read and two
  writes and every statement advances its program counter; \<open>thread_run_toggle\<close>
  shows that three steps always finish the toggle.

  \<^emph>\<open>Sequential and threaded serving.\<close> \<open>serve\<close>, \<open>serve_c\<close> and
  \<open>reachable_serial\<close> handle one request after the other, as a single worker
  does; the invariants C1, C29 and C30 are proved for that server. The
  development server of line 253 is threaded, and there the statements of
  concurrent requests interleave; \<open>LikeRace\<close> models that for the like toggle,
  the one handler whose statements depend on an earlier read, and shows the
  invariant of C1 failing there (C25, C26). Interleavings of the other handlers
  are not modelled.

  \<^emph>\<open>Not modelled.\<close> Why a connection is refused (the server and the network
  decide it; the model takes the answer as a parameter), the closing of cursors
  and connections (no effect under autocommit), the HTML of the templates (only
  which data a page shows and that it consumes the flashes), the cryptography of
  the cookie signature (a cookie is read back exactly when it was signed with the
  current key), the console output of \<^verbatim>\<open>print\<close>, and query strings, which no
  handler reads. The schema itself is not in the repository: its foreign-key
  policy and like key are parameters, and properties that depend on them say
  which choice they assume.
\<close>

inductive reachable_serial :: "schema \<Rightarrow> app_state \<Rightarrow> bool" for sc :: schema where
  start: "reachable_serial sc \<lparr>db = empty_store\<lparr>chick_info := cs\<rparr>, flashes = []\<rparr>"
| step: "reachable_serial sc st \<Longrightarrow> reachable_serial sc (snd (handle_c sc e ce r st))"

lemma board_inv_start: "board_inv (empty_store\<lparr>chick_info := cs\<rparr>)"
  by (simp add: board_inv_def empty_store_def)



text \<open>
  C2. Without foreign keys on \<^verbatim>\<open>likes.post_id\<close> the invariant of C1 fails, and
  the handlers break it themselves: \<^verbatim>\<open>like_post\<close> inserts a like for a post id
  that does not exist yet and its counter update matches no row; when
  \<^verbatim>\<open>create_post\<close> later issues that id, the new post starts at
  \<^verbatim>\<open>like_count = 0\<close> with one like row already behind it, and the next toggle
  deletes that row and drives the counter to -1.
\<close>

theorem like_count_drift_without_fk:
  assumes "fk sc = NoForeignKey"
  shows "let st = serve sc [(e, PostLike 1),
                   (e, PostCreate [(''title'', ''A''), (''author'', ''B''), (''content'', ''C'')]),
                   (e, PostLike 1)] \<lparr>db = empty_store, flashes = []\<rparr>
         in map like_count (posts (db st)) = [-1] \<and> likes (db st) = []"
  using assms
  by (simp add: like_post_def create_post_def insert_like_def count_likes_def fk_missing_def
      add_like_count_def empty_store_def insert_post_def delete_likes_def form_get_def Let_def)

theorem like_count_drift_without_fk_witness:
  "fk \<lparr>fk = NoForeignKey, likes_unique = True\<rparr> = NoForeignKey \<and>
   (let st = serve \<lparr>fk = NoForeignKey, likes_unique = True\<rparr>
                [(\<lparr>remote_addr = ''10.0.0.7'', clock = 1\<rparr>, PostLike 1),
                 (\<lparr>remote_addr = ''10.0.0.7'', clock = 1\<rparr>,
                  PostCreate [(''title'', ''A''), (''author'', ''B''), (''content'', ''C'')]),
                 (\<lparr>remote_addr = ''10.0.0.7'', clock = 1\<rparr>, PostLike 1)] \<lparr>db = empty_store, flashes = []\<rparr>
    in map like_count (posts (db st)) = [-1] \<and> likes (db st) = [])"
  using like_count_drift_without_fk [of "\<lparr>fk = NoForeignKey, likes_unique = True\<rparr>"
      "\<lparr>remote_addr = ''10.0.0.7'', clock = 1\<rparr>"]
  by simp

end
